theory Spec2Isabelle
  imports Main
begin

chapter \<open>Minecraft server supervisor: embedding of \<open>src/services/minecraft/minecraft.js\<close>\<close>

text \<open>
  The module keeps a map \<open>runningServers\<close> from server identifiers to handles of spawned
  Java processes, captures their output in a bounded array, stops them gracefully or by
  force, and reads the persisted log file of a server that is not running.

  Conventions of the embedding:
  \<^item> a JavaScript string is a \<open>string\<close>; a \<open>char\<close> stands for one code unit in the range
    0..255, so the code units U+2028 and U+2029 do not occur;
  \<^item> an optional field of an options object is an \<open>option\<close>; \<open>None\<close> is \<open>undefined\<close>;
  \<^item> \<open>Date.now()\<close>, the local calendar, the outcome of \<open>spawn\<close> and of writes to a
    pipe are inputs of the functions that use them;
  \<^item> calls of \<open>logger\<close> and Socket.IO \<open>emit\<close> have no effect on the module's state and
    are left out.
\<close>

section \<open>Strings\<close>

text \<open>\<open>String.prototype.trim\<close>: white space and line terminators among the code units below 256.\<close>

definition is_js_space :: "char \<Rightarrow> bool" where
  "is_js_space c = (of_char c \<in> set [9, 10, 11, 12, 13, 32, 160 :: nat])"

definition trim :: "string \<Rightarrow> string" where
  "trim s = rev (dropWhile is_js_space (rev (dropWhile is_js_space s)))"

text \<open>
  \<open>String.prototype.toLowerCase\<close> on code units below 256: A-Z (65..90) and the Latin-1
  capitals (192..222 without the multiplication sign 215) move up by 32, which sets
  bit 5 of the code unit; every other code unit stays.
\<close>

definition lower_char :: "char \<Rightarrow> char" where
  "lower_char c =
     (let n = of_char c :: nat
      in if (65 \<le> n \<and> n \<le> 90) \<or> (192 \<le> n \<and> n \<le> 222 \<and> n \<noteq> 215)
         then (case c of Char b0 b1 b2 b3 b4 b5 b6 b7 \<Rightarrow> Char b0 b1 b2 b3 b4 True b6 b7)
         else c)"

definition toLowerCase :: "string \<Rightarrow> string" where
  "toLowerCase s = map lower_char s"

text \<open>\<open>s.startsWith(p)\<close> and \<open>s.includes(p)\<close>.\<close>

fun startsWith :: "string \<Rightarrow> string \<Rightarrow> bool" where
  "startsWith s [] = True"
| "startsWith [] (p # ps) = False"
| "startsWith (c # cs) (p # ps) = (c = p \<and> startsWith cs ps)"

fun includes_str :: "string \<Rightarrow> string \<Rightarrow> bool" where
  "includes_str [] p = (p = [])"
| "includes_str (c # cs) p = (startsWith (c # cs) p \<or> includes_str cs p)"

text \<open>\<open>s.split(sep)\<close> for a separator of one code unit.\<close>

fun split_acc :: "char \<Rightarrow> string \<Rightarrow> string \<Rightarrow> string list" where
  "split_acc sep acc [] = [rev acc]"
| "split_acc sep acc (c # cs) =
     (if c = sep then rev acc # split_acc sep [] cs else split_acc sep (c # acc) cs)"

definition split :: "char \<Rightarrow> string \<Rightarrow> string list" where
  "split sep s = split_acc sep [] s"

text \<open>Template-literal conversion of a number, and of an exit code that may be \<open>null\<close>.\<close>

definition digit_char :: "nat \<Rightarrow> char" where
  "digit_char d = ''0123456789'' ! d"

fun string_of_nat :: "nat \<Rightarrow> string" where
  "string_of_nat n =
     (if n < 10 then [digit_char n] else string_of_nat (n div 10) @ [digit_char (n mod 10)])"

definition string_of_int :: "int \<Rightarrow> string" where
  "string_of_int i = (if i < 0 then CHR ''-'' # string_of_nat (nat (- i)) else string_of_nat (nat i))"

definition string_of_code :: "int option \<Rightarrow> string" where
  "string_of_code code = (case code of None \<Rightarrow> ''null'' | Some i \<Rightarrow> string_of_int i)"

section \<open>Configuration and log entries\<close>

text \<open>
  \<open>config.minecraft\<close> comes from a module outside this file; its two fields used here are
  parameters. \<open>None\<close> is an absent field.
\<close>

record minecraft_config =
  maxLogLines :: "int option"
  stopTimeout :: "int option"

record log_entry =
  timestamp :: int
  message :: string
  type :: string

section \<open>The log array of a handle\<close>

text \<open>\<open>const MAX_LOGS = config.minecraft.maxLogLines || 1000\<close>: absent and 0 are falsy.\<close>

definition MAX_LOGS :: "minecraft_config \<Rightarrow> int" where
  "MAX_LOGS cfg = (case maxLogLines cfg of None \<Rightarrow> 1000 | Some n \<Rightarrow> if n = 0 then 1000 else n)"

text \<open>\<open>logs.push(logEntry); if (logs.length > MAX_LOGS) logs.shift();\<close>\<close>

definition push_shift :: "int \<Rightarrow> log_entry list \<Rightarrow> log_entry \<Rightarrow> log_entry list" where
  "push_shift cap logs e =
     (let logs' = logs @ [e] in if int (length logs') > cap then tl logs' else logs')"

text \<open>The \<open>data\<close> handlers of stdout and stderr: an empty trimmed chunk is dropped.\<close>

definition on_stdout :: "minecraft_config \<Rightarrow> int \<Rightarrow> string \<Rightarrow> log_entry list \<Rightarrow> log_entry list" where
  "on_stdout cfg now data logs =
     (let msg = trim data
      in if msg = [] then logs
         else push_shift (MAX_LOGS cfg) logs \<lparr>timestamp = now, message = msg, type = ''stdout''\<rparr>)"

definition on_stderr :: "minecraft_config \<Rightarrow> int \<Rightarrow> string \<Rightarrow> log_entry list \<Rightarrow> log_entry list" where
  "on_stderr cfg now data logs =
     (let msg = trim data
      in if msg = [] then logs
         else push_shift (MAX_LOGS cfg) logs \<lparr>timestamp = now, message = msg, type = ''stderr''\<rparr>)"

text \<open>The \<open>close\<close> handler: \<open>logs.push(logEntry)\<close>, and nothing is shifted out.\<close>

definition on_close_log :: "int \<Rightarrow> int option \<Rightarrow> log_entry list \<Rightarrow> log_entry list" where
  "on_close_log now code logs =
     logs @ [\<lparr>timestamp = now,
              message = ''Server process exited with code '' @ string_of_code code,
              type = ''system''\<rparr>]"

text \<open>
  \<open>sendCommand\<close>: \<open>logs.push(logEntry); if (logs.length > config.minecraft.maxLogLines)
  logs.shift();\<close>. The bound is read without the default, and a comparison with
  \<open>undefined\<close> is false.
\<close>

definition command_log :: "minecraft_config \<Rightarrow> int \<Rightarrow> string \<Rightarrow> log_entry list \<Rightarrow> log_entry list" where
  "command_log cfg now command logs =
     (let logs' = logs @ [\<lparr>timestamp = now,
                            message = ''Command executed: '' @ command,
                            type = ''command''\<rparr>]
      in case maxLogLines cfg of
           None \<Rightarrow> logs'
         | Some n \<Rightarrow> if int (length logs') > n then tl logs' else logs')"

text \<open>The four sources of entries, and a run of them on one log array.\<close>

datatype append = Stdout string | Stderr string | Command string | Exit "int option"

fun apply_append :: "minecraft_config \<Rightarrow> log_entry list \<Rightarrow> int \<times> append \<Rightarrow> log_entry list" where
  "apply_append cfg logs (now, Stdout data) = on_stdout cfg now data logs"
| "apply_append cfg logs (now, Stderr data) = on_stderr cfg now data logs"
| "apply_append cfg logs (now, Command c) = command_log cfg now c logs"
| "apply_append cfg logs (now, Exit code) = on_close_log now code logs"

definition run_appends :: "minecraft_config \<Rightarrow> (int \<times> append) list \<Rightarrow> log_entry list" where
  "run_appends cfg evs = foldl (apply_append cfg) [] evs"

text \<open>The appends made by the two \<open>data\<close> handlers.\<close>

fun is_output :: "append \<Rightarrow> bool" where
  "is_output (Stdout d) = True"
| "is_output (Stderr d) = True"
| "is_output (Command c) = False"
| "is_output (Exit code) = False"

section \<open>\<open>getServerLogs\<close>: the filters on a log array\<close>

record log_options =
  opt_type :: "string option"
  opt_search :: "string option"
  opt_limit :: "int option"

text \<open>\<open>Array.prototype.slice(start)\<close>: a negative start counts from the end.\<close>

definition slice_from :: "int \<Rightarrow> 'a list \<Rightarrow> 'a list" where
  "slice_from start xs =
     (let len = int (length xs);
          k = (if start < 0 then max (len + start) 0 else min start len)
      in drop (nat k) xs)"

text \<open>
  The code after \<open>let logs = [...serverInstance.logs]\<close>, which \<open>getServerLogsFromFile\<close>
  repeats on the parsed lines. An absent and an empty \<open>type\<close> or \<open>search\<close> are falsy and
  filter nothing; \<open>options.limit || 100\<close> takes 100 for an absent limit and for 0.
\<close>

definition apply_filters :: "log_options \<Rightarrow> log_entry list \<Rightarrow> log_entry list" where
  "apply_filters options ls =
     (let ls1 = (case opt_type options of
                   None \<Rightarrow> ls
                 | Some t \<Rightarrow> if t = [] then ls else filter (\<lambda>l. type l = t) ls);
          ls2 = (case opt_search options of
                   None \<Rightarrow> ls1
                 | Some s \<Rightarrow>
                     if s = [] then ls1
                     else (let searchLower = toLowerCase s
                           in filter (\<lambda>l. includes_str (toLowerCase (message l)) searchLower) ls1));
          limit = (case opt_limit options of
                     None \<Rightarrow> 100
                   | Some n \<Rightarrow> if n = 0 then 100 else n)
      in slice_from (- (min limit (int (length ls2)))) ls2)"

section \<open>The reader of the persisted log file\<close>

text \<open>
  The regular expression \<open>/\[(\d{2}:\d{2}:\d{2})\] \[([^\]]+)\]: (.+)/\<close>. It is not
  anchored, so \<open>line.match\<close> returns the leftmost match. \<open>[^\]]+\<close> stops at the first
  \<open>]\<close>, and \<open>.\<close> excludes the line terminators.
\<close>

definition is_digit :: "char \<Rightarrow> bool" where
  "is_digit c = (let n = of_char c :: nat in 48 \<le> n \<and> n \<le> 57)"

definition line_terminator :: "char \<Rightarrow> bool" where
  "line_terminator c = (of_char c \<in> set [10, 13 :: nat])"

fun strip_prefix :: "string \<Rightarrow> string \<Rightarrow> string option" where
  "strip_prefix [] s = Some s"
| "strip_prefix (p # ps) [] = None"
| "strip_prefix (p # ps) (c # cs) = (if p = c then strip_prefix ps cs else None)"

fun match_time :: "string \<Rightarrow> (string \<times> string) option" where
  "match_time (a # b # c # d # e # f # g # h # rest) =
     (if is_digit a \<and> is_digit b \<and> c = CHR '':'' \<and> is_digit d \<and> is_digit e \<and>
         f = CHR '':'' \<and> is_digit g \<and> is_digit h
      then Some ([a, b, c, d, e, f, g, h], rest) else None)"
| "match_time _ = None"

definition match_at :: "string \<Rightarrow> (string \<times> string \<times> string) option" where
  "match_at s =
     (case strip_prefix ''['' s of
        None \<Rightarrow> None
      | Some s1 \<Rightarrow>
     (case match_time s1 of
        None \<Rightarrow> None
      | Some (timeStr, s2) \<Rightarrow>
     (case strip_prefix ''] ['' s2 of
        None \<Rightarrow> None
      | Some s3 \<Rightarrow>
          (let level = takeWhile (\<lambda>c. c \<noteq> CHR '']'') s3;
               s4 = dropWhile (\<lambda>c. c \<noteq> CHR '']'') s3
           in if level = [] then None
              else (case strip_prefix '']: '' s4 of
                      None \<Rightarrow> None
                    | Some s5 \<Rightarrow>
                        (let text = takeWhile (\<lambda>c. \<not> line_terminator c) s5
                         in if text = [] then None else Some (timeStr, level, text)))))))"

fun regex_match :: "string \<Rightarrow> (string \<times> string \<times> string) option" where
  "regex_match [] = match_at []"
| "regex_match (c # cs) =
     (case match_at (c # cs) of Some m \<Rightarrow> Some m | None \<Rightarrow> regex_match cs)"

text \<open>\<open>Number\<close> on a string of decimal digits, and \<open>timeStr.split(':').map(Number)\<close>.\<close>

definition digit_value :: "char \<Rightarrow> nat" where
  "digit_value c = of_char c - 48"

definition Number :: "string \<Rightarrow> nat" where
  "Number s = foldl (\<lambda>acc c. 10 * acc + digit_value c) 0 s"

text \<open>
  The clock of one read: \<open>Date.now()\<close>, and \<open>today_at h m s\<close> for
  \<open>new Date(now.getFullYear(), now.getMonth(), now.getDate(), h, m, s).getTime()\<close>,
  the instant of the local calendar day of \<open>now\<close> at that time of day.
\<close>

record clock =
  now_ms :: int
  today_at :: "nat \<Rightarrow> nat \<Rightarrow> nat \<Rightarrow> int"

text \<open>
  The function mapped over the lines. A match has a time of two digits, a colon, two
  digits, a colon and two digits, so \<open>split\<close> yields three numbers and the second case of
  the inner \<open>case\<close> does not arise.
\<close>

definition parse_log_line :: "clock \<Rightarrow> string \<Rightarrow> log_entry" where
  "parse_log_line clk line =
     (case regex_match line of
        Some (timeStr, level, text) \<Rightarrow>
          (case map Number (split CHR '':'' timeStr) of
             hours # minutes # seconds # _ \<Rightarrow>
               \<lparr>timestamp = today_at clk hours minutes seconds,
                message = line,
                type = (if includes_str level ''ERROR'' then ''stderr'' else ''stdout'')\<rparr>
           | _ \<Rightarrow> \<lparr>timestamp = now_ms clk, message = line, type = ''stdout''\<rparr>)
      | None \<Rightarrow> \<lparr>timestamp = now_ms clk, message = line, type = ''stdout''\<rparr>)"

text \<open>
  \<open>lines.filter(line => line.trim()).map(...)\<close> on \<open>content.split('\n')\<close>: a line that is
  blank after \<open>trim\<close> gives no entry.
\<close>

definition parse_log_file :: "clock \<Rightarrow> string \<Rightarrow> log_entry list" where
  "parse_log_file clk content =
     map (parse_log_line clk) (filter (\<lambda>line. trim line \<noteq> []) (split (CHR 0x0A) content))"

section \<open>The state of the module and of its collaborators\<close>

type_synonym server_id = string
type_synonym pid = nat

text \<open>
  The results and errors. An error result is \<open>{status: 'error', message}\<close> or a rejected
  promise; the constructors stand for the messages
  \<^item> \<open>AlreadyRunning\<close>: 'Server is already running';
  \<^item> \<open>NotFound\<close>: 'Server not found';
  \<^item> \<open>MissingArtifact p\<close>: 'Server JAR file not found at p';
  \<^item> \<open>NotRunning\<close>: 'Server is not running';
  \<^item> \<open>PropertiesLocked\<close>: 'Cannot update properties while server is running';
  \<^item> \<open>SpawnFailure\<close>: the exception thrown by \<open>spawn\<close>;
  \<^item> \<open>StoreFailure\<close>: the rejection of \<open>findById\<close> or \<open>save\<close>;
  \<^item> \<open>IOFailure\<close>: the exception of a file-system call or of a write to a pipe.
\<close>

datatype error =
    AlreadyRunning | NotFound | MissingArtifact string | NotRunning | PropertiesLocked
  | SpawnFailure | StoreFailure | IOFailure

datatype start_ok = Started
datatype stop_ok = ForcedStop | GracefulStop
datatype command_ok = CommandSent

text \<open>The fields of a \<open>MinecraftServer\<close> document that the module reads or writes.\<close>

record server_doc =
  name :: string
  path :: string
  jarFile :: string
  memory_min :: string
  memory_max :: string
  jvmFlags :: "string list"
  properties :: "(string \<times> string) list"
  lastStarted :: "int option"
  lastStopped :: "int option"

text \<open>
  A \<open>ChildProcess\<close> made by \<open>spawn\<close>, together with what the handlers registered in
  \<open>startServer\<close> close over: the \<open>serverId\<close>, the \<open>logs\<close> array and the \<open>server\<close>
  document. The handle in \<open>runningServers\<close> refers to the same array and document, so
  they live here, under the process.
\<close>

record child =
  args :: "string list"
  cwd :: string
  owner :: server_id
  server :: server_doc
  logs :: "log_entry list"
  stdin :: "string list"
  signals :: "string list"
  closed :: bool

text \<open>
  A value of the \<open>runningServers\<close> map; \<open>process\<close> refers to the child by its number, and
  the fields \<open>logs\<close> and \<open>server\<close> of the handle are those of that child.
\<close>

record server_instance =
  process :: pid
  startTime :: int

datatype fs_node = Dir | File string

text \<open>
  \<open>timers\<close> holds the pending \<open>killTimeout\<close> timers with the \<open>serverId\<close> each closes over
  and its delay;
  \<open>waiters\<close> holds the \<open>once('close')\<close> listeners of \<open>stopServer\<close>, each with the timer it
  clears, in the order of registration; \<open>settled\<close> holds the promises of \<open>stopServer\<close>
  that have been resolved, under the number of their timer.
\<close>

record world =
  runningServers :: "server_id \<rightharpoonup> server_instance"
  db :: "server_id \<rightharpoonup> server_doc"
  fs :: "string \<rightharpoonup> fs_node"
  children :: "pid \<Rightarrow> child"
  next_pid :: pid
  timers :: "nat \<rightharpoonup> server_id \<times> int"
  next_timer :: nat
  waiters :: "(pid \<times> nat) list"
  settled :: "nat \<rightharpoonup> stop_ok"

text \<open>
  What the surroundings decide in one call: the time, and which of the calls into the
  record store, the file system and the operating system fail. A write to the input
  pipe of a child succeeds, throws, or returns and reports its error later in an
  \<open>error\<close> event, which this module does not listen to.
\<close>

datatype write_outcome = Written | WriteThrows | WriteErrorLater

record env =
  env_now :: int
  env_iso :: string
  find_fails :: bool
  ensureDir_fails :: bool
  spawn_fails :: bool
  save_fails :: bool
  writeFile_fails :: bool
  stdin_write :: write_outcome

text \<open>\<open>path.join\<close> without its normalisation of \<open>.\<close>, \<open>..\<close> and repeated separators.\<close>

definition path_join :: "string \<Rightarrow> string \<Rightarrow> string" where
  "path_join a b = a @ ''/'' @ b"

section \<open>\<open>updateServerProperties\<close>\<close>

text \<open>
  The field \<open>properties\<close> of a document is a map of the document library; a
  \<open>server_doc\<close> holds its entries. What the library makes of
  \<open>server.properties = { ...server.properties, ...newProperties }\<close> and what
  \<open>Object.entries(server.properties)\<close> lists are inputs: \<open>spread_into\<close> gives the entries
  of \<open>server.properties\<close> after the assignment, from the entries before it and the new
  properties, and \<open>entries_of\<close> gives the pairs that the loop over the entries writes.
\<close>

type_synonym props = "(string \<times> string) list"

record props_library =
  spread_into :: "props \<Rightarrow> props \<Rightarrow> props"
  entries_of :: "props \<Rightarrow> props"

definition properties_content :: "string \<Rightarrow> props \<Rightarrow> string" where
  "properties_content stamp entries =
     ''# Minecraft server properties'' @ [CHR 0x0A] @
     ''# Generated by Minecraft Server Manager on '' @ stamp @ [CHR 0x0A] @
     concat (map (\<lambda>kv. fst kv @ ''='' @ snd kv @ [CHR 0x0A]) entries)"

text \<open>
  A call of \<open>updateServerProperties\<close> is a task, as a call of \<open>startServer\<close> is: at its
  entry, suspended at \<open>await MinecraftServer.findById(serverId)\<close>, at
  \<open>await server.save()\<close> or at \<open>await fs.writeFile(propertiesPath, content)\<close>, or
  finished. The check \<open>runningServers.has(serverId)\<close> is in the segment that follows the
  lookup. The store and the disk change when \<open>save\<close> and \<open>writeFile\<close> resolve.
\<close>

datatype update_task =
    U_AtEntry
  | U_AwaitFindById
  | U_AwaitSave server_doc
  | U_AwaitWriteFile server_doc string string
  | U_Finished "error + props"

text \<open>\<open>server.save()\<close> writes the changed field of the document, if the store still has it.\<close>

definition save_properties :: "server_id \<Rightarrow> props \<Rightarrow> world \<Rightarrow> world" where
  "save_properties serverId ps w =
     (case db w serverId of
        None \<Rightarrow> w
      | Some d \<Rightarrow> w\<lparr>db := (db w)(serverId \<mapsto> d\<lparr>properties := ps\<rparr>)\<rparr>)"

text \<open>
  From the making of the content to \<open>await fs.writeFile\<close>: the task keeps the
  document, the path of the file and the content.
\<close>

definition update_write :: "props_library \<Rightarrow> env \<Rightarrow> server_doc \<Rightarrow> update_task" where
  "update_write lib e srv =
     U_AwaitWriteFile srv
       (path_join (path srv) ''server.properties'')
       (properties_content (env_iso e) (entries_of lib (properties srv)))"

fun update_step ::
  "props_library \<Rightarrow> env \<Rightarrow> server_id \<Rightarrow> props \<Rightarrow> world \<Rightarrow> update_task \<Rightarrow> world \<times> update_task" where
  "update_step lib e serverId newProperties w U_AtEntry = (w, U_AwaitFindById)"
| "update_step lib e serverId newProperties w U_AwaitFindById =
     (if find_fails e then (w, U_Finished (Inl StoreFailure))
      else case db w serverId of
        None \<Rightarrow> (w, U_Finished (Inl NotFound))
      | Some srv \<Rightarrow>
          if runningServers w serverId \<noteq> None then (w, U_Finished (Inl PropertiesLocked))
          else if newProperties \<noteq> []
          then (w, U_AwaitSave (srv\<lparr>properties := spread_into lib (properties srv) newProperties\<rparr>))
          else (w, update_write lib e srv))"
| "update_step lib e serverId newProperties w (U_AwaitSave srv) =
     (if save_fails e then (w, U_Finished (Inl StoreFailure))
      else (save_properties serverId (properties srv) w, update_write lib e srv))"
| "update_step lib e serverId newProperties w (U_AwaitWriteFile srv propertiesPath content) =
     (if writeFile_fails e then (w, U_Finished (Inl IOFailure))
      else (w\<lparr>fs := (fs w)(propertiesPath \<mapsto> File content)\<rparr>, U_Finished (Inr (properties srv))))"
| "update_step lib e serverId newProperties w (U_Finished r) = (w, U_Finished r)"

text \<open>A suspended call that runs to its end with nothing in between: three segments.\<close>

definition update_resume ::
  "props_library \<Rightarrow> env \<Rightarrow> server_id \<Rightarrow> props \<Rightarrow> world \<Rightarrow> update_task \<Rightarrow> world \<times> update_task" where
  "update_resume lib e serverId newProperties w t =
     (let (w1, t1) = update_step lib e serverId newProperties w t;
          (w2, t2) = update_step lib e serverId newProperties w1 t1
      in update_step lib e serverId newProperties w2 t2)"

text \<open>A call that nothing else interleaves with.\<close>

definition updateServerProperties ::
  "props_library \<Rightarrow> env \<Rightarrow> server_id \<Rightarrow> props \<Rightarrow> world \<Rightarrow> world \<times> update_task" where
  "updateServerProperties lib e serverId newProperties w =
     (let (w1, t1) = update_step lib e serverId newProperties w U_AtEntry
      in update_resume lib e serverId newProperties w1 t1)"

section \<open>\<open>startServer\<close>\<close>

text \<open>
  An \<open>async\<close> function runs without interruption from one \<open>await\<close> to the next, and
  other calls and handlers run while it is suspended. A call of \<open>startServer\<close> is
  therefore a task that is at its entry, suspended at one of its three \<open>await\<close>s, or
  finished, and \<open>start_step\<close> runs the code up to the next suspension.
\<close>

datatype start_task =
    AtEntry
  | AwaitFindById
  | AwaitEnsureDir server_doc
  | AwaitSave
  | Finished "error + start_ok"

definition javaArgs :: "server_doc \<Rightarrow> string list" where
  "javaArgs srv =
     (let base = [''-Xms'' @ memory_min srv, ''-Xmx'' @ memory_max srv, ''-jar'', jarFile srv, ''nogui'']
      in if jvmFlags srv \<noteq> [] then jvmFlags srv @ base else base)"

text \<open>
  From the check of the jar to \<open>await server.save()\<close>: \<open>spawn\<close>, the registration of the
  three handlers, \<open>runningServers.set\<close> and the assignment of \<open>server.lastStarted\<close>.
\<close>

definition start_launch :: "env \<Rightarrow> server_id \<Rightarrow> server_doc \<Rightarrow> world \<Rightarrow> world \<times> start_task" where
  "start_launch e serverId srv w =
     (let jarPath = path_join (path srv) (jarFile srv)
      in if fs w jarPath = None then (w, Finished (Inl (MissingArtifact jarPath)))
         else if spawn_fails e then (w, Finished (Inl SpawnFailure))
         else
           (let p = next_pid w;
                c = \<lparr>args = javaArgs srv, cwd = path srv, owner = serverId,
                     server = srv\<lparr>lastStarted := Some (env_now e)\<rparr>,
                     logs = [], stdin = [], signals = [], closed = False\<rparr>;
                inst = \<lparr>process = p, startTime = env_now e\<rparr>
            in (w\<lparr>children := (children w)(p := c),
                  next_pid := Suc p,
                  runningServers := (runningServers w)(serverId \<mapsto> inst)\<rparr>,
                AwaitSave)))"

text \<open>\<open>server.save()\<close> writes the changed field of the document, if the store still has it.\<close>

definition save_lastStarted :: "server_id \<Rightarrow> int \<Rightarrow> world \<Rightarrow> world" where
  "save_lastStarted serverId t w =
     (case db w serverId of
        None \<Rightarrow> w
      | Some d \<Rightarrow> w\<lparr>db := (db w)(serverId \<mapsto> d\<lparr>lastStarted := Some t\<rparr>)\<rparr>)"

definition save_lastStopped :: "server_id \<Rightarrow> int \<Rightarrow> world \<Rightarrow> world" where
  "save_lastStopped serverId t w =
     (case db w serverId of
        None \<Rightarrow> w
      | Some d \<Rightarrow> w\<lparr>db := (db w)(serverId \<mapsto> d\<lparr>lastStopped := Some t\<rparr>)\<rparr>)"

text \<open>\<open>fs.ensureDir\<close> is modelled by the creation of the directory itself.\<close>

fun start_step :: "env \<Rightarrow> server_id \<Rightarrow> world \<Rightarrow> start_task \<Rightarrow> world \<times> start_task" where
  "start_step e serverId w AtEntry =
     (if runningServers w serverId \<noteq> None then (w, Finished (Inl AlreadyRunning))
      else (w, AwaitFindById))"
| "start_step e serverId w AwaitFindById =
     (if find_fails e then (w, Finished (Inl StoreFailure))
      else case db w serverId of
        None \<Rightarrow> (w, Finished (Inl NotFound))
      | Some srv \<Rightarrow>
          if fs w (path srv) = None
          then (if ensureDir_fails e then (w, Finished (Inl IOFailure))
                else (w\<lparr>fs := (fs w)(path srv \<mapsto> Dir)\<rparr>, AwaitEnsureDir srv))
          else start_launch e serverId srv w)"
| "start_step e serverId w (AwaitEnsureDir srv) = start_launch e serverId srv w"
| "start_step e serverId w AwaitSave =
     (if save_fails e then (w, Finished (Inl StoreFailure))
      else (save_lastStarted serverId (env_now e) w, Finished (Inr Started)))"
| "start_step e serverId w (Finished r) = (w, Finished r)"

text \<open>A call that nothing else interleaves with: its at most four segments in a row.\<close>

definition startServer :: "env \<Rightarrow> server_id \<Rightarrow> world \<Rightarrow> world \<times> start_task" where
  "startServer e serverId w =
     (let (w1, t1) = start_step e serverId w AtEntry;
          (w2, t2) = start_step e serverId w1 t1;
          (w3, t3) = start_step e serverId w2 t2
      in start_step e serverId w3 t3)"

text \<open>
  Several calls in flight: the schedule names, one after the other, the call whose next
  segment runs.
\<close>

record start_call =
  call_env :: env
  call_id :: server_id
  call_task :: start_task

fun interleave :: "nat list \<Rightarrow> world \<Rightarrow> start_call list \<Rightarrow> world \<times> start_call list" where
  "interleave [] w cs = (w, cs)"
| "interleave (k # ks) w cs =
     (if k < length cs
      then (let c = cs ! k;
                (w', t') = start_step (call_env c) (call_id c) w (call_task c)
            in interleave ks w' (cs[k := c\<lparr>call_task := t'\<rparr>]))
      else interleave ks w cs)"

section \<open>The handlers of a child\<close>

definition stdout_data :: "minecraft_config \<Rightarrow> int \<Rightarrow> pid \<Rightarrow> string \<Rightarrow> world \<Rightarrow> world" where
  "stdout_data cfg t p data w =
     w\<lparr>children := (children w)(p := (children w p)\<lparr>logs := on_stdout cfg t data (logs (children w p))\<rparr>)\<rparr>"

definition stderr_data :: "minecraft_config \<Rightarrow> int \<Rightarrow> pid \<Rightarrow> string \<Rightarrow> world \<Rightarrow> world" where
  "stderr_data cfg t p data w =
     w\<lparr>children := (children w)(p := (children w p)\<lparr>logs := on_stderr cfg t data (logs (children w p))\<rparr>)\<rparr>"

text \<open>
  The \<open>close\<close> event of child \<open>p\<close> with exit code \<open>code\<close>. Its listeners run in the order
  of their registration: first the handler of \<open>startServer\<close> up to its
  \<open>await server.save()\<close>, then the \<open>once('close')\<close> listeners of \<open>stopServer\<close>, each of
  which clears its timer and resolves its promise.
\<close>

definition close_event :: "env \<Rightarrow> pid \<Rightarrow> int option \<Rightarrow> world \<Rightarrow> world" where
  "close_event e p code w =
     (let c = children w p;
          c' = c\<lparr>logs := on_close_log (env_now e) code (logs c),
                server := (server c)\<lparr>lastStopped := Some (env_now e)\<rparr>,
                closed := True\<rparr>;
          mine = filter (\<lambda>qt. fst qt = p) (waiters w)
      in w\<lparr>children := (children w)(p := c'),
           timers := foldl (\<lambda>m qt. m(snd qt := None)) (timers w) mine,
           settled := foldl (\<lambda>m qt. m(snd qt \<mapsto> GracefulStop)) (settled w) mine,
           waiters := filter (\<lambda>qt. fst qt \<noteq> p) (waiters w)\<rparr>)"

text \<open>
  The rest of the handler of \<open>startServer\<close>, once \<open>server.save()\<close> has resolved:
  \<open>runningServers.delete(serverId)\<close>. When \<open>save\<close> rejects, the handler ends there.
\<close>

definition close_saved :: "env \<Rightarrow> pid \<Rightarrow> world \<Rightarrow> world" where
  "close_saved e p w =
     (if save_fails e then w
      else (let serverId = owner (children w p);
                w1 = save_lastStopped serverId (env_now e) w
            in w1\<lparr>runningServers := (runningServers w1)(serverId := None)\<rparr>))"

section \<open>\<open>stopServer\<close>\<close>

definition STOP_TIMEOUT :: "minecraft_config \<Rightarrow> int" where
  "STOP_TIMEOUT cfg = (case stopTimeout cfg of None \<Rightarrow> 30000 | Some n \<Rightarrow> if n = 0 then 30000 else n)"

text \<open>\<open>process.kill(signal)\<close> hands the signal to the operating system.\<close>

definition kill :: "pid \<Rightarrow> string \<Rightarrow> world \<Rightarrow> world" where
  "kill p sig w =
     w\<lparr>children := (children w)(p := (children w p)\<lparr>signals := signals (children w p) @ [sig]\<rparr>)\<rparr>"

text \<open>\<open>process.stdin.write(chunk)\<close> when it does not throw.\<close>

definition write_stdin :: "env \<Rightarrow> pid \<Rightarrow> string \<Rightarrow> world \<Rightarrow> world" where
  "write_stdin e p chunk w =
     (if stdin_write e = Written
      then w\<lparr>children := (children w)(p := (children w p)\<lparr>stdin := stdin (children w p) @ [chunk]\<rparr>)\<rparr>
      else w)"

text \<open>
  The value a call returns: a result at once, or a promise that a later \<open>close\<close> event
  resolves; the promise carries the number of its timer.
\<close>

datatype 'a promise = Resolved 'a | Pending nat

definition stopServer ::
  "minecraft_config \<Rightarrow> env \<Rightarrow> server_id \<Rightarrow> bool \<Rightarrow> world \<Rightarrow> world \<times> (error + stop_ok) promise" where
  "stopServer cfg e serverId force w =
     (case runningServers w serverId of
        None \<Rightarrow> (w, Resolved (Inl NotRunning))
      | Some inst \<Rightarrow>
          if force then (kill (process inst) ''SIGKILL'' w, Resolved (Inr ForcedStop))
          else if stdin_write e = WriteThrows then (w, Resolved (Inl IOFailure))
          else
            (let w1 = write_stdin e (process inst) (''stop'' @ [CHR 0x0A]) w;
                 t = next_timer w1
             in (w1\<lparr>timers := (timers w1)(t \<mapsto> (serverId, STOP_TIMEOUT cfg)),
                    next_timer := Suc t,
                    waiters := waiters w1 @ [(process inst, t)]\<rparr>,
                 Pending t)))"

text \<open>
  The callback of \<open>killTimeout\<close>, when timer \<open>t\<close> elapses. A cleared timer does not fire.
\<close>

definition kill_timeout :: "nat \<Rightarrow> world \<Rightarrow> world" where
  "kill_timeout t w =
     (case timers w t of
        None \<Rightarrow> w
      | Some (serverId, delay) \<Rightarrow>
          (let w1 = w\<lparr>timers := (timers w)(t := None)\<rparr>
           in case runningServers w1 serverId of
                None \<Rightarrow> w1
              | Some inst \<Rightarrow> kill (process inst) ''SIGKILL'' w1))"

section \<open>\<open>sendCommand\<close>\<close>

definition sendCommand ::
  "minecraft_config \<Rightarrow> env \<Rightarrow> server_id \<Rightarrow> string \<Rightarrow> world \<Rightarrow> world \<times> (error + command_ok)" where
  "sendCommand cfg e serverId command w =
     (case runningServers w serverId of
        None \<Rightarrow> (w, Inl NotRunning)
      | Some inst \<Rightarrow>
          (let p = process inst;
               c = children w p;
               w1 = w\<lparr>children := (children w)(p := c\<lparr>logs := command_log cfg (env_now e) command (logs c)\<rparr>)\<rparr>
           in if stdin_write e = WriteThrows then (w1, Inl IOFailure)
              else (write_stdin e p (command @ [CHR 0x0A]) w1, Inr CommandSent)))"

section \<open>\<open>getServerLogs\<close> and \<open>getServerLogsFromFile\<close>\<close>

definition getServerLogsFromFile ::
  "env \<Rightarrow> clock \<Rightarrow> server_id \<Rightarrow> log_options \<Rightarrow> world \<Rightarrow> error + log_entry list" where
  "getServerLogsFromFile e clk serverId options w =
     (if find_fails e then Inl StoreFailure
      else case db w serverId of
        None \<Rightarrow> Inl NotFound
      | Some srv \<Rightarrow>
          (let logPath = path_join (path_join (path srv) ''logs'') ''latest.log''
           in case fs w logPath of
                None \<Rightarrow> Inr []
              | Some Dir \<Rightarrow> Inl IOFailure
              | Some (File content) \<Rightarrow> Inr (apply_filters options (parse_log_file clk content))))"

definition getServerLogs ::
  "env \<Rightarrow> clock \<Rightarrow> server_id \<Rightarrow> log_options \<Rightarrow> world \<Rightarrow> error + log_entry list" where
  "getServerLogs e clk serverId options w =
     (case runningServers w serverId of
        None \<Rightarrow> getServerLogsFromFile e clk serverId options w
      | Some inst \<Rightarrow> Inr (apply_filters options (logs (children w (process inst)))))"

section \<open>The filters and the line pattern in the words of the design document\<close>

text \<open>
  The design document words \<open>getLogs\<close> as three steps: keep the entries of the wanted
  source tag, keep those whose message contains the search text without regard to case,
  and return the most recent ones, in the order of their arrival.
\<close>

definition takeLast :: "nat \<Rightarrow> 'a list \<Rightarrow> 'a list" where
  "takeLast n xs = drop (length xs - n) xs"

definition tag_matches :: "log_options \<Rightarrow> log_entry \<Rightarrow> bool" where
  "tag_matches options l =
     (case opt_type options of None \<Rightarrow> True | Some t \<Rightarrow> t = [] \<or> type l = t)"

definition contains_ci :: "string \<Rightarrow> string \<Rightarrow> bool" where
  "contains_ci msg s = (\<exists>a b. toLowerCase msg = a @ toLowerCase s @ b)"

definition search_matches :: "log_options \<Rightarrow> log_entry \<Rightarrow> bool" where
  "search_matches options l =
     (case opt_search options of None \<Rightarrow> True | Some s \<Rightarrow> contains_ci (message l) s)"

definition limit_of :: "log_options \<Rightarrow> nat" where
  "limit_of options =
     (case opt_limit options of None \<Rightarrow> 100 | Some n \<Rightarrow> if n = 0 then 100 else nat n)"

definition getLogs_spec :: "log_options \<Rightarrow> log_entry list \<Rightarrow> log_entry list" where
  "getLogs_spec options ls =
     takeLast (limit_of options) (filter (search_matches options) (filter (tag_matches options) ls))"

text \<open>
  The pattern of a log line: a bracketed time \<open>HH:MM:SS\<close>, a blank, a bracketed level
  without \<open>]\<close>, then \<open>: \<close> and a text that starts with a character other than a line
  terminator. \<open>matches_at s h m sec level\<close> says that \<open>s\<close> begins with the pattern;
  \<open>first_match\<close> picks the leftmost place of a line where it does, and \<open>no_match\<close> says
  that there is no such place.
\<close>

definition is_time :: "string \<Rightarrow> nat \<Rightarrow> nat \<Rightarrow> nat \<Rightarrow> bool" where
  "is_time t h m s =
     (\<exists>a b c d e f. t = [a, b, CHR '':'', c, d, CHR '':'', e, f] \<and>
        is_digit a \<and> is_digit b \<and> is_digit c \<and> is_digit d \<and> is_digit e \<and> is_digit f \<and>
        h = 10 * digit_value a + digit_value b \<and>
        m = 10 * digit_value c + digit_value d \<and>
        s = 10 * digit_value e + digit_value f)"

definition matches_at :: "string \<Rightarrow> nat \<Rightarrow> nat \<Rightarrow> nat \<Rightarrow> string \<Rightarrow> bool" where
  "matches_at s h m sec level =
     (\<exists>t rest. s = ''['' @ t @ ''] ['' @ level @ '']: '' @ rest \<and> is_time t h m sec \<and>
        level \<noteq> [] \<and> CHR '']'' \<notin> set level \<and> rest \<noteq> [] \<and> \<not> line_terminator (hd rest))"

definition first_match :: "string \<Rightarrow> nat \<Rightarrow> nat \<Rightarrow> nat \<Rightarrow> string \<Rightarrow> bool" where
  "first_match line h m sec level =
     (\<exists>pre s. line = pre @ s \<and> matches_at s h m sec level \<and>
        (\<forall>pre' s' h' m' sec' level'.
           line = pre' @ s' \<and> length pre' < length pre \<longrightarrow> \<not> matches_at s' h' m' sec' level'))"

definition no_match :: "string \<Rightarrow> bool" where
  "no_match line = (\<forall>pre s h m sec level. line = pre @ s \<longrightarrow> \<not> matches_at s h m sec level)"

section \<open>Sample configurations\<close>

text \<open>One configured server, the surroundings in which no call fails, and four states.\<close>

definition doc1 :: server_doc where
  "doc1 = \<lparr>name = ''survival'', path = ''/srv/mc/survival'', jarFile = ''paper.jar'',
            memory_min = ''1G'', memory_max = ''4G'', jvmFlags = [],
            properties = [(''server-port'', ''25565'')],
            lastStarted = None, lastStopped = None\<rparr>"

definition env_ok :: env where
  "env_ok = \<lparr>env_now = 1000, env_iso = ''2024-01-01T00:00:00.000Z'',
              find_fails = False, ensureDir_fails = False, spawn_fails = False,
              save_fails = False, writeFile_fails = False, stdin_write = Written\<rparr>"

text \<open>
  A library for the samples: the spread lists the stored entries and then the new ones,
  and the entries are listed as they are stored.
\<close>

definition lib_sample :: props_library where
  "lib_sample = \<lparr>spread_into = (\<lambda>stored new. stored @ new), entries_of = (\<lambda>stored. stored)\<rparr>"

definition no_child :: child where
  "no_child = \<lparr>args = [], cwd = [], owner = [], server = doc1, logs = [], stdin = [],
                signals = [], closed = True\<rparr>"

definition child1 :: child where
  "child1 = \<lparr>args = [''-Xms1G'', ''-Xmx4G'', ''-jar'', ''paper.jar'', ''nogui''],
              cwd = ''/srv/mc/survival'', owner = ''s1'',
              server = doc1\<lparr>lastStarted := Some 1000\<rparr>,
              logs = [], stdin = [], signals = [], closed = False\<rparr>"

text \<open>The directory and the jar are on disk, and nothing runs.\<close>

definition world_stopped :: world where
  "world_stopped =
     \<lparr>runningServers = Map.empty,
      db = [''s1'' \<mapsto> doc1],
      fs = [''/srv/mc/survival'' \<mapsto> Dir, ''/srv/mc/survival/paper.jar'' \<mapsto> File []],
      children = (\<lambda>p. no_child), next_pid = 0,
      timers = Map.empty, next_timer = 0, waiters = [], settled = Map.empty\<rparr>"

text \<open>The directory is on disk without the jar.\<close>

definition world_nojar :: world where
  "world_nojar = world_stopped\<lparr>fs := [''/srv/mc/survival'' \<mapsto> Dir]\<rparr>"

text \<open>Neither the directory nor the jar is on disk.\<close>

definition world_nodir :: world where
  "world_nodir = world_stopped\<lparr>fs := Map.empty\<rparr>"

text \<open>The state after \<open>startServer\<close> for \<open>s1\<close> in \<open>world_stopped\<close>: child 0 runs.\<close>

definition world_running :: world where
  "world_running =
     world_stopped
       \<lparr>runningServers := [''s1'' \<mapsto> \<lparr>process = 0, startTime = 1000\<rparr>],
        db := [''s1'' \<mapsto> doc1\<lparr>lastStarted := Some 1000\<rparr>],
        children := (\<lambda>p. no_child)(0 := child1),
        next_pid := 1\<rparr>"

text \<open>
  The state between the \<open>close\<close> event of child 0 and the end of its handler: the process
  has exited, and its handle is still in the map.
\<close>

definition world_exited :: world where
  "world_exited = close_event env_ok 0 (Some 0) world_running"

text \<open>Child 0 runs and has logged one line on stdout and one on stderr.\<close>

definition out_entry :: log_entry where
  "out_entry = \<lparr>timestamp = 1001, message = ''Starting minecraft server'', type = ''stdout''\<rparr>"

definition err_entry :: log_entry where
  "err_entry = \<lparr>timestamp = 1002, message = ''Failed to bind to port'', type = ''stderr''\<rparr>"

definition world_logging :: world where
  "world_logging =
     world_running\<lparr>children := (\<lambda>p. no_child)(0 := child1\<lparr>logs := [out_entry, err_entry]\<rparr>)\<rparr>"

text \<open>A capacity of three lines, two calls of \<open>startServer\<close> for the same server, a clock.\<close>

definition cfg3 :: minecraft_config where
  "cfg3 = \<lparr>maxLogLines = Some 3, stopTimeout = None\<rparr>"

definition two_calls :: "start_call list" where
  "two_calls = [\<lparr>call_env = env_ok, call_id = ''s1'', call_task = AtEntry\<rparr>,
                \<lparr>call_env = env_ok\<lparr>env_now := 1001\<rparr>, call_id = ''s1'', call_task = AtEntry\<rparr>]"

definition clk0 :: clock where
  "clk0 = \<lparr>now_ms = 777, today_at = (\<lambda>h m s. int (1000 * (h * 3600 + m * 60 + s)))\<rparr>"

section \<open>Properties of the log array\<close>

lemma push_shift_length:
  "0 \<le> cap \<Longrightarrow> int (length ls) \<le> cap \<Longrightarrow> int (length (push_shift cap ls e)) \<le> cap"
  by (auto simp: push_shift_def Let_def)

lemma push_shift_takeLast:
  assumes "0 < n" "length ls \<le> n"
  shows "push_shift (int n) ls e = takeLast n (ls @ [e])"
proof (cases "length ls = n")
  case True
  then have "push_shift (int n) ls e = tl (ls @ [e])"
    by (simp add: push_shift_def Let_def)
  also have "\<dots> = drop 1 (ls @ [e])"
    by (simp only: One_nat_def drop_Suc drop_0)
  finally show ?thesis using True by (simp add: takeLast_def)
next
  case False
  with assms have "length ls < n" by simp
  then show ?thesis by (simp add: push_shift_def takeLast_def Let_def)
qed

text \<open>The two \<open>data\<close> handlers keep the array within \<open>MAX_LOGS\<close>.\<close>

lemma output_append_bounded:
  assumes "0 < MAX_LOGS cfg" "is_output ev" "int (length ls) \<le> MAX_LOGS cfg"
  shows "int (length (apply_append cfg ls (t, ev))) \<le> MAX_LOGS cfg"
proof (cases ev)
  case (Stdout d)
  then show ?thesis
    using assms push_shift_length [of "MAX_LOGS cfg" ls] by (simp add: on_stdout_def Let_def)
next
  case (Stderr d)
  then show ?thesis
    using assms push_shift_length [of "MAX_LOGS cfg" ls] by (simp add: on_stderr_def Let_def)
next
  case (Command c)
  with assms show ?thesis by simp
next
  case (Exit code)
  with assms show ?thesis by simp
qed

lemma output_appends_bounded:
  assumes "0 < MAX_LOGS cfg"
  shows "\<forall>ev \<in> set evs. is_output (snd ev) \<Longrightarrow> int (length ls) \<le> MAX_LOGS cfg \<Longrightarrow>
         int (length (foldl (apply_append cfg) ls evs)) \<le> MAX_LOGS cfg"
proof (induction evs arbitrary: ls)
  case Nil
  then show ?case by simp
next
  case (Cons x evs)
  obtain t ev where x: "x = (t, ev)" by (cases x)
  have "int (length (apply_append cfg ls (t, ev))) \<le> MAX_LOGS cfg"
    using assms Cons.prems x by (intro output_append_bounded) simp_all
  then show ?case using Cons.IH Cons.prems(1) x by simp
qed

lemma trim_letter [simp]:
  "trim ''A'' = ''A''" "trim ''B'' = ''B''" "trim ''C'' = ''C''" "trim ''D'' = ''D''"
  by (simp_all add: trim_def is_js_space_def)

text \<open>With room for three lines, the lines A, B, C and D on stdout leave B, C and D.\<close>

lemma output_scenario:
  "run_appends cfg3 [(1, Stdout ''A''), (2, Stdout ''B''), (3, Stdout ''C''), (4, Stdout ''D'')] =
     [\<lparr>timestamp = 2, message = ''B'', type = ''stdout''\<rparr>,
      \<lparr>timestamp = 3, message = ''C'', type = ''stdout''\<rparr>,
      \<lparr>timestamp = 4, message = ''D'', type = ''stdout''\<rparr>]"
  by (simp add: run_appends_def cfg3_def on_stdout_def push_shift_def MAX_LOGS_def)

text \<open>Without the setting, \<open>sendCommand\<close> lets the array grow with every command.\<close>

lemma command_log_unbounded:
  "maxLogLines cfg = None \<Longrightarrow> length (command_log cfg t c ls) = Suc (length ls)"
  by (simp add: command_log_def Let_def)

text \<open>
  Claim C2. The claim bounds the array after every append, the exit entry included. The
  \<open>close\<close> handler pushes its entry and shifts nothing out: with room for three lines,
  the lines A, B and C on stdout and then the exit of the process with code 0 leave
  four entries.
\<close>

theorem exit_entry_exceeds_capacity:
  "MAX_LOGS cfg3 = 3 \<and>
   run_appends cfg3 [(1, Stdout ''A''), (2, Stdout ''B''), (3, Stdout ''C''), (4, Exit (Some 0))] =
     [\<lparr>timestamp = 1, message = ''A'', type = ''stdout''\<rparr>,
      \<lparr>timestamp = 2, message = ''B'', type = ''stdout''\<rparr>,
      \<lparr>timestamp = 3, message = ''C'', type = ''stdout''\<rparr>,
      \<lparr>timestamp = 4, message = ''Server process exited with code 0'', type = ''system''\<rparr>] \<and>
   length (run_appends cfg3
      [(1, Stdout ''A''), (2, Stdout ''B''), (3, Stdout ''C''), (4, Exit (Some 0))]) = 4"
  by (simp add: run_appends_def cfg3_def on_stdout_def push_shift_def MAX_LOGS_def
      on_close_log_def string_of_code_def string_of_int_def digit_char_def)

section \<open>Properties of \<open>startServer\<close>\<close>

lemma startServer_finishes: "\<exists>r. snd (startServer e serverId w) = Finished r"
  by (auto simp: startServer_def start_launch_def Let_def split: if_splits option.splits)

lemma startServer_sample: "startServer env_ok ''s1'' world_stopped = (world_running, Finished (Inr Started))"
  by (simp add: startServer_def start_launch_def save_lastStarted_def javaArgs_def path_join_def
      world_stopped_def world_running_def env_ok_def doc1_def child1_def Let_def)

lemma startServer_running:
  "runningServers w serverId \<noteq> None \<Longrightarrow> startServer e serverId w = (w, Finished (Inl AlreadyRunning))"
  by (simp add: startServer_def)

text \<open>
  Claim C7. When a call of \<open>startServer\<close> ends with the error of a missing jar or with
  the exception of \<open>spawn\<close>, the map \<open>runningServers\<close> is the one the call found, it has
  no handle for the identifier, and no child has been created. An error that \<open>spawn\<close>
  reports later, in an \<open>error\<close> event, is not an error of the call, which has returned
  success by then.
\<close>

theorem startServer_failure_leaves_registry:
  assumes "startServer e serverId w = (w', Finished (Inl err))"
      and "err = SpawnFailure \<or> (\<exists>p. err = MissingArtifact p)"
  shows "runningServers w' = runningServers w \<and> runningServers w' serverId = None \<and>
         children w' = children w \<and> next_pid w' = next_pid w"
  using assms
  by (auto simp: startServer_def start_launch_def Let_def split: if_splits option.splits)

theorem startServer_failure_leaves_registry_witness:
  "startServer env_ok ''s1'' world_nojar =
     (world_nojar, Finished (Inl (MissingArtifact ''/srv/mc/survival/paper.jar''))) \<and>
   runningServers world_nojar ''s1'' = None \<and>
   startServer (env_ok\<lparr>spawn_fails := True\<rparr>) ''s1'' world_stopped =
     (world_stopped, Finished (Inl SpawnFailure)) \<and>
   runningServers world_stopped ''s1'' = None"
proof -
  let ?jar = "''/srv/mc/survival/paper.jar''"
  have a: "startServer env_ok ''s1'' world_nojar = (world_nojar, Finished (Inl (MissingArtifact ?jar)))"
    by (simp add: startServer_def start_launch_def path_join_def world_nojar_def
        world_stopped_def env_ok_def doc1_def Let_def)
  have ha: "MissingArtifact ?jar = SpawnFailure \<or> (\<exists>p. MissingArtifact ?jar = MissingArtifact p)"
    by simp
  have b: "startServer (env_ok\<lparr>spawn_fails := True\<rparr>) ''s1'' world_stopped =
      (world_stopped, Finished (Inl SpawnFailure))"
    by (simp add: startServer_def start_launch_def path_join_def
        world_stopped_def env_ok_def doc1_def Let_def)
  have hb: "SpawnFailure = SpawnFailure \<or> (\<exists>p. SpawnFailure = MissingArtifact p)"
    by simp
  have "runningServers world_nojar ''s1'' = None"
    using startServer_failure_leaves_registry [OF a ha] by (rule conjunct2 [THEN conjunct1])
  moreover have "runningServers world_stopped ''s1'' = None"
    using startServer_failure_leaves_registry [OF b hb] by (rule conjunct2 [THEN conjunct1])
  ultimately show ?thesis
    using a b by (intro conjI)
qed

text \<open>
  Claim C8, as the code has it. \<open>startServer\<close> does not fail for a missing working
  directory: it creates the directory and goes on to the check of the jar. For a
  configured server that is not running and whose directory is missing, the call leaves
  the directory on disk and never ends with \<open>NotFound\<close>; when the jar is missing too, it
  ends with \<open>MissingArtifact\<close>, and the only change of the state is the new directory, so
  no process is spawned.
\<close>

theorem startServer_creates_missing_directory:
  assumes "runningServers w serverId = None" and "\<not> find_fails e" and "db w serverId = Some srv"
      and "fs w (path srv) = None" and "\<not> ensureDir_fails e"
  shows "fs (fst (startServer e serverId w)) (path srv) = Some Dir \<and>
         snd (startServer e serverId w) \<noteq> Finished (Inl NotFound) \<and>
         (fs w (path_join (path srv) (jarFile srv)) = None \<longrightarrow>
            startServer e serverId w =
              (w\<lparr>fs := (fs w)(path srv \<mapsto> Dir)\<rparr>,
               Finished (Inl (MissingArtifact (path_join (path srv) (jarFile srv))))))"
  using assms
  by (auto simp: startServer_def start_launch_def save_lastStarted_def path_join_def Let_def
      split: option.splits)

theorem startServer_creates_missing_directory_witness:
  "runningServers world_nodir ''s1'' = None \<and> \<not> find_fails env_ok \<and>
   db world_nodir ''s1'' = Some doc1 \<and> fs world_nodir (path doc1) = None \<and>
   \<not> ensureDir_fails env_ok \<and>
   fs (fst (startServer env_ok ''s1'' world_nodir)) ''/srv/mc/survival'' = Some Dir \<and>
   snd (startServer env_ok ''s1'' world_nodir) \<noteq> Finished (Inl NotFound)"
proof -
  have h: "runningServers world_nodir ''s1'' = None" "\<not> find_fails env_ok"
    "db world_nodir ''s1'' = Some doc1" "fs world_nodir (path doc1) = None"
    "\<not> ensureDir_fails env_ok"
    by (simp_all add: world_nodir_def world_stopped_def env_ok_def doc1_def)
  have p: "path doc1 = ''/srv/mc/survival''" by (simp add: doc1_def)
  show ?thesis
    using startServer_creates_missing_directory [OF h] h by (simp add: p)
qed

text \<open>
  The claim C8 as it is written fails: with the server configured and neither its
  directory nor its jar on disk, the call creates the directory and ends with
  \<open>MissingArtifact\<close>, not with \<open>NotFound\<close>.
\<close>

theorem startServer_missing_directory_counterexample:
  "fs world_nodir (path doc1) = None \<and> db world_nodir ''s1'' = Some doc1 \<and>
   startServer env_ok ''s1'' world_nodir =
     (world_nodir\<lparr>fs := [''/srv/mc/survival'' \<mapsto> Dir]\<rparr>,
      Finished (Inl (MissingArtifact ''/srv/mc/survival/paper.jar''))) \<and>
   snd (startServer env_ok ''s1'' world_nodir) \<noteq> Finished (Inl NotFound)"
  by (simp add: startServer_def start_launch_def path_join_def world_nodir_def world_stopped_def
      env_ok_def doc1_def Let_def)

text \<open>
  Two calls for a server that is configured, on disk and not running, whose segments
  alternate: each passes the check at its entry, each spawns a child, and each ends
  with success. The map keeps the handle of the second child.
\<close>

lemma start_race:
  assumes "runningServers w i = None" and "db w i = Some srv"
      and "fs w (path srv) \<noteq> None" and "fs w (path_join (path srv) (jarFile srv)) \<noteq> None"
      and "\<not> find_fails e1" "\<not> spawn_fails e1" "\<not> save_fails e1"
      and "\<not> find_fails e2" "\<not> spawn_fails e2" "\<not> save_fails e2"
  shows "\<exists>w'. interleave [0, 1, 0, 1, 0, 1] w
            [\<lparr>call_env = e1, call_id = i, call_task = AtEntry\<rparr>,
             \<lparr>call_env = e2, call_id = i, call_task = AtEntry\<rparr>] =
           (w', [\<lparr>call_env = e1, call_id = i, call_task = Finished (Inr Started)\<rparr>,
                 \<lparr>call_env = e2, call_id = i, call_task = Finished (Inr Started)\<rparr>]) \<and>
         next_pid w' = Suc (Suc (next_pid w)) \<and>
         runningServers w' i = Some \<lparr>process = Suc (next_pid w), startTime = env_now e2\<rparr> \<and>
         owner (children w' (next_pid w)) = i \<and> \<not> closed (children w' (next_pid w)) \<and>
         owner (children w' (Suc (next_pid w))) = i \<and> \<not> closed (children w' (Suc (next_pid w)))"
  using assms
  by (auto simp: start_launch_def save_lastStarted_def Let_def)

text \<open>
  Claim C1. The check \<open>runningServers.has(serverId)\<close> and \<open>runningServers.set\<close> are in
  different segments of a call, with \<open>await MinecraftServer.findById(serverId)\<close> between
  them. Two calls for \<open>s1\<close> that both pass the check before either resumes both spawn a
  process and both report success: children 0 and 1 exist and neither has closed, the map
  holds the handle of child 1 only, and no call has answered \<open>AlreadyRunning\<close>.
\<close>

theorem two_starts_spawn_two_processes:
  "interleave [0, 1, 0, 1, 0, 1] world_stopped two_calls =
     (world_stopped
        \<lparr>runningServers := [''s1'' \<mapsto> \<lparr>process = 1, startTime = 1001\<rparr>],
         db := [''s1'' \<mapsto> doc1\<lparr>lastStarted := Some 1001\<rparr>],
         children := (\<lambda>p. no_child)
           (0 := child1, 1 := child1\<lparr>server := doc1\<lparr>lastStarted := Some 1001\<rparr>\<rparr>),
         next_pid := 2\<rparr>,
      [\<lparr>call_env = env_ok, call_id = ''s1'', call_task = Finished (Inr Started)\<rparr>,
       \<lparr>call_env = env_ok\<lparr>env_now := 1001\<rparr>, call_id = ''s1'',
        call_task = Finished (Inr Started)\<rparr>])"
  by (simp add: two_calls_def world_stopped_def env_ok_def doc1_def child1_def start_launch_def
      save_lastStarted_def javaArgs_def path_join_def Let_def)

text \<open>One call after the other: the second finds the handle and is refused.\<close>

lemma two_starts_in_sequence:
  "interleave [0, 0, 0, 1, 1, 1] world_stopped two_calls =
     (world_running,
      [\<lparr>call_env = env_ok, call_id = ''s1'', call_task = Finished (Inr Started)\<rparr>,
       \<lparr>call_env = env_ok\<lparr>env_now := 1001\<rparr>, call_id = ''s1'',
        call_task = Finished (Inl AlreadyRunning)\<rparr>])"
  by (simp add: two_calls_def world_stopped_def world_running_def env_ok_def doc1_def child1_def
      start_launch_def save_lastStarted_def javaArgs_def path_join_def Let_def)

section \<open>Properties of \<open>updateServerProperties\<close>\<close>

lemma updateServerProperties_finishes:
  "\<exists>r. snd (updateServerProperties lib e serverId newProperties w) = U_Finished r"
  by (auto simp: updateServerProperties_def update_resume_def update_write_def Let_def
      split: option.splits)

text \<open>With nothing in between, a call for a server that has a handle fails and changes nothing.\<close>

lemma updateServerProperties_alone_while_running:
  assumes "runningServers w serverId = Some inst"
  shows "\<exists>err. updateServerProperties lib e serverId newProperties w = (w, U_Finished (Inl err))"
  using assms
  by (simp add: updateServerProperties_def update_resume_def split: option.split)

text \<open>
  The segments of a call leave the map \<open>runningServers\<close> as it is, and the store and the
  disk change in the segments after \<open>save\<close> and \<open>writeFile\<close> only.
\<close>

lemma update_step_registry:
  "runningServers (fst (update_step lib e serverId newProperties w t)) = runningServers w"
  by (cases t) (auto simp: save_properties_def split: option.splits)

lemma update_step_check_frame:
  "fst (update_step lib e serverId newProperties w U_AtEntry) = w"
  "fst (update_step lib e serverId newProperties w U_AwaitFindById) = w"
  by (auto split: option.splits)

text \<open>
  Whatever the library makes of the spread and of the entries: a call that resumes from
  the lookup while the map has no handle for the server, and whose \<open>save\<close> and
  \<open>writeFile\<close> do not fail, ends with success and leaves \<open>server.properties\<close> on disk.
\<close>

lemma update_resume_unlocked:
  assumes "runningServers w serverId = None" and "db w serverId = Some srv"
      and "\<not> find_fails e" and "\<not> save_fails e" and "\<not> writeFile_fails e"
  shows "\<exists>w' ps. update_resume lib e serverId newProperties w U_AwaitFindById =
                    (w', U_Finished (Inr ps)) \<and>
                  fs w' (path_join (path srv) ''server.properties'') \<noteq> None"
  using assms
  by (cases "newProperties = []")
     (simp_all add: update_resume_def update_write_def save_properties_def)

text \<open>
  A call whose check passes while nothing runs, and \<open>startServer\<close> for the same server
  during its \<open>await server.save()\<close>: the call goes on without a second check and writes
  \<open>server.properties\<close> while the map has the handle of child 0.
\<close>

lemma update_writes_after_start:
  "update_step lib_sample env_ok ''s1'' [(''motd'', ''hello'')] world_stopped U_AtEntry =
     (world_stopped, U_AwaitFindById) \<and>
   update_step lib_sample env_ok ''s1'' [(''motd'', ''hello'')] world_stopped U_AwaitFindById =
     (world_stopped,
      U_AwaitSave (doc1\<lparr>properties := [(''server-port'', ''25565''), (''motd'', ''hello'')]\<rparr>)) \<and>
   startServer env_ok ''s1'' world_stopped = (world_running, Finished (Inr Started)) \<and>
   runningServers world_running ''s1'' = Some \<lparr>process = 0, startTime = 1000\<rparr> \<and>
   update_resume lib_sample env_ok ''s1'' [(''motd'', ''hello'')] world_running
       (U_AwaitSave (doc1\<lparr>properties := [(''server-port'', ''25565''), (''motd'', ''hello'')]\<rparr>)) =
     (world_running
        \<lparr>db := [''s1'' \<mapsto> doc1\<lparr>lastStarted := Some 1000,
                   properties := [(''server-port'', ''25565''), (''motd'', ''hello'')]\<rparr>],
         fs := (fs world_running)
           (''/srv/mc/survival/server.properties'' \<mapsto>
              File (properties_content ''2024-01-01T00:00:00.000Z''
                      [(''server-port'', ''25565''), (''motd'', ''hello'')]))\<rparr>,
      U_Finished (Inr [(''server-port'', ''25565''), (''motd'', ''hello'')]))"
  by (simp add: update_resume_def update_write_def save_properties_def lib_sample_def
      startServer_def start_launch_def save_lastStarted_def javaArgs_def path_join_def
      world_stopped_def world_running_def env_ok_def doc1_def child1_def Let_def)

text \<open>
  Claim C10, as the code has it. The check for a handle is made when the call resumes
  from the lookup of the server, not when the call is made. The first segment of a call
  changes nothing and suspends at the lookup. When the map has a handle for the server
  as the call resumes, the call ends there with an error, and the state is the one it
  resumed in: the stored properties of the server and the file \<open>server.properties\<close> are
  not touched.
\<close>

theorem updateServerProperties_locked_at_check:
  assumes "runningServers w serverId = Some inst"
  shows "update_step lib e serverId newProperties w0 U_AtEntry = (w0, U_AwaitFindById) \<and>
         (\<exists>err. update_step lib e serverId newProperties w U_AwaitFindById =
                  (w, U_Finished (Inl err)))"
  using assms by (simp split: option.split)

theorem updateServerProperties_locked_at_check_witness:
  "runningServers world_running ''s1'' = Some \<lparr>process = 0, startTime = 1000\<rparr> \<and>
   update_step lib_sample env_ok ''s1'' [(''motd'', ''hello'')] world_running U_AtEntry =
     (world_running, U_AwaitFindById) \<and>
   update_step lib_sample env_ok ''s1'' [(''motd'', ''hello'')] world_running U_AwaitFindById =
     (world_running, U_Finished (Inl PropertiesLocked))"
proof -
  have r: "runningServers world_running ''s1'' = Some \<lparr>process = 0, startTime = 1000\<rparr>"
    by (simp add: world_running_def world_stopped_def)
  note t = updateServerProperties_locked_at_check
    [OF r, of lib_sample env_ok "[(''motd'', ''hello'')]" world_running]
  obtain err where u: "update_step lib_sample env_ok ''s1'' [(''motd'', ''hello'')] world_running
      U_AwaitFindById = (world_running, U_Finished (Inl err))"
    using t [THEN conjunct2] by (elim exE) (rule that)
  have "update_step lib_sample env_ok ''s1'' [(''motd'', ''hello'')] world_running U_AwaitFindById =
      (world_running, U_Finished (Inl PropertiesLocked))"
    by (simp add: world_running_def world_stopped_def env_ok_def)
  with r t [THEN conjunct1] u show ?thesis by simp
qed

text \<open>
  The claim C10 as it is written fails. Child 0 has exited and its \<open>close\<close> handler
  waits for \<open>save\<close>, so the map has the handle of \<open>s1\<close> when \<open>updateServerProperties\<close> is
  called. The handler ends while the call waits for the lookup and takes the handle out
  of the map. The call resumes, passes the check, and ends with success: the stored
  properties have the new entry, and \<open>server.properties\<close>, which was not on disk, is
  written.
\<close>

theorem updateServerProperties_handle_removed_counterexample:
  "runningServers world_exited ''s1'' = Some \<lparr>process = 0, startTime = 1000\<rparr> \<and>
   update_step lib_sample env_ok ''s1'' [(''motd'', ''hello'')] world_exited U_AtEntry =
     (world_exited, U_AwaitFindById) \<and>
   runningServers (close_saved env_ok 0 world_exited) ''s1'' = None \<and>
   snd (update_resume lib_sample env_ok ''s1'' [(''motd'', ''hello'')]
          (close_saved env_ok 0 world_exited) U_AwaitFindById) =
     U_Finished (Inr [(''server-port'', ''25565''), (''motd'', ''hello'')]) \<and>
   map_option properties (db world_exited ''s1'') = Some [(''server-port'', ''25565'')] \<and>
   map_option properties
     (db (fst (update_resume lib_sample env_ok ''s1'' [(''motd'', ''hello'')]
                 (close_saved env_ok 0 world_exited) U_AwaitFindById)) ''s1'') =
     Some [(''server-port'', ''25565''), (''motd'', ''hello'')] \<and>
   fs world_exited ''/srv/mc/survival/server.properties'' = None \<and>
   fs (fst (update_resume lib_sample env_ok ''s1'' [(''motd'', ''hello'')]
              (close_saved env_ok 0 world_exited) U_AwaitFindById))
      ''/srv/mc/survival/server.properties'' =
     Some (File (properties_content ''2024-01-01T00:00:00.000Z''
                   [(''server-port'', ''25565''), (''motd'', ''hello'')]))"
  by (simp add: update_resume_def update_write_def save_properties_def lib_sample_def
      world_exited_def close_event_def close_saved_def save_lastStopped_def path_join_def
      world_running_def world_stopped_def env_ok_def doc1_def child1_def Let_def)

section \<open>Properties of \<open>stopServer\<close>\<close>

lemma foldl_clear_timers:
  "foldl (\<lambda>m qt. m(snd qt := None)) m xs t = (if t \<in> snd ` set xs then None else m t)"
  by (induction xs arbitrary: m) auto

lemma foldl_settle:
  "foldl (\<lambda>m qt. m(snd qt \<mapsto> GracefulStop)) m xs t =
     (if t \<in> snd ` set xs then Some GracefulStop else m t)"
  by (induction xs arbitrary: m) auto

text \<open>A \<open>close\<close> event clears the timer of every listener of the child and resolves its promise.\<close>

lemma close_event_listener:
  assumes "(p, t) \<in> set (waiters w)"
  shows "timers (close_event e p code w) t = None"
    and "settled (close_event e p code w) t = Some GracefulStop"
  using assms by (auto simp: close_event_def Let_def foldl_clear_timers foldl_settle image_iff)

lemma close_event_frame:
  "signals (children (close_event e p code w) q) = signals (children w q)"
  "runningServers (close_event e p code w) = runningServers w"
  "owner (children (close_event e p code w) q) = owner (children w q)"
  "logs (children (close_event e p code w) p) = on_close_log (env_now e) code (logs (children w p))"
  by (simp_all add: close_event_def Let_def)

lemma kill_timeout_cleared: "timers w t = None \<Longrightarrow> kill_timeout t w = w"
  by (simp add: kill_timeout_def)

lemma kill_timeout_fires:
  assumes "timers w t = Some (serverId, d)" "runningServers w serverId = Some inst"
  shows "kill_timeout t w = kill (process inst) ''SIGKILL'' (w\<lparr>timers := (timers w)(t := None)\<rparr>)"
  using assms by (simp add: kill_timeout_def)

lemma stopServer_graceful:
  assumes "runningServers w serverId = Some inst" "stdin_write e \<noteq> WriteThrows"
  shows "stopServer cfg e serverId False w =
     ((write_stdin e (process inst) (''stop'' @ [CHR 0x0A]) w)
        \<lparr>timers := (timers w)(next_timer w \<mapsto> (serverId, STOP_TIMEOUT cfg)),
         next_timer := Suc (next_timer w),
         waiters := waiters w @ [(process inst, next_timer w)]\<rparr>, Pending (next_timer w))"
  using assms by (simp add: stopServer_def write_stdin_def Let_def)

lemma stopServer_not_running:
  "runningServers w serverId = None \<Longrightarrow>
     stopServer cfg e serverId force w = (w, Resolved (Inl NotRunning))"
  by (simp add: stopServer_def)

text \<open>
  With \<open>force\<close>, \<open>stopServer\<close> on a running server hands SIGKILL to the process and
  returns success in the same step; the map and the \<open>closed\<close> flag of the child are as
  before.
\<close>

lemma stopServer_force:
  assumes "runningServers w serverId = Some inst"
  shows "stopServer cfg e serverId True w =
           (kill (process inst) ''SIGKILL'' w, Resolved (Inr ForcedStop)) \<and>
         signals (children (kill (process inst) ''SIGKILL'' w) (process inst)) =
           signals (children w (process inst)) @ [''SIGKILL''] \<and>
         runningServers (kill (process inst) ''SIGKILL'' w) = runningServers w \<and>
         closed (children (kill (process inst) ''SIGKILL'' w) (process inst)) =
           closed (children w (process inst))"
  using assms by (simp add: stopServer_def kill_def)

text \<open>
  Claim C4. The claim has the forced stop return only once the process has exited. The
  branch for \<open>force\<close> sends SIGKILL and returns, where the branch without \<open>force\<close> waits
  for the \<open>close\<close> event: the forced stop of the running server \<open>s1\<close> has returned
  success with SIGKILL sent, while child 0 has not closed and its handle is in the map.
\<close>

theorem stopServer_force_returns_before_exit:
  "stopServer cfg3 env_ok ''s1'' True world_running =
     (world_running\<lparr>children := (\<lambda>p. no_child)(0 := child1\<lparr>signals := [''SIGKILL'']\<rparr>)\<rparr>,
      Resolved (Inr ForcedStop)) \<and>
   runningServers (fst (stopServer cfg3 env_ok ''s1'' True world_running)) ''s1'' =
     Some \<lparr>process = 0, startTime = 1000\<rparr> \<and>
   \<not> closed (children (fst (stopServer cfg3 env_ok ''s1'' True world_running)) 0)"
  by (simp add: stopServer_def kill_def world_running_def world_stopped_def child1_def)

text \<open>
  Claim C3. A stop without \<open>force\<close> on a running server writes the stop command, arms
  the timer and registers a \<open>once('close')\<close> listener. The race of the exit against the
  timer is the order of the two events. When the \<open>close\<close> event comes while the timer
  is pending, the timer is cleared, so that it never fires, the promise resolves with
  the graceful success, and no signal has been sent. When the timer fires while the
  process has not closed, SIGKILL goes to the process; the \<open>close\<close> event that follows
  runs the handler of \<open>startServer\<close>, which removes the handle from the map once the stop
  time is saved, and resolves the promise.
\<close>

theorem stop_protocol_race:
  assumes running: "runningServers w serverId = Some inst"
      and own: "owner (children w (process inst)) = serverId"
      and wr: "stdin_write e \<noteq> WriteThrows"
  shows "\<exists>t w1. stopServer cfg e serverId False w = (w1, Pending t) \<and>
      timers w1 t = Some (serverId, STOP_TIMEOUT cfg) \<and>
      (\<forall>e1 code. let w2 = close_event e1 (process inst) code w1 in
           timers w2 t = None \<and> kill_timeout t w2 = w2 \<and> settled w2 t = Some GracefulStop \<and>
           signals (children w2 (process inst)) = signals (children w (process inst))) \<and>
      (let w2 = kill_timeout t w1 in
           signals (children w2 (process inst)) = signals (children w (process inst)) @ [''SIGKILL''] \<and>
           (\<forall>e1 (e2 :: env) code. \<not> save_fails e2 \<longrightarrow>
              (let w3 = close_saved e2 (process inst) (close_event e1 (process inst) code w2) in
                 runningServers w3 serverId = None \<and> settled w3 t = Some GracefulStop)))"
proof -
  let ?p = "process inst"
  let ?t = "next_timer w"
  let ?w0 = "write_stdin e ?p (''stop'' @ [CHR 0x0A]) w"
  let ?w1 = "?w0\<lparr>timers := (timers w)(?t \<mapsto> (serverId, STOP_TIMEOUT cfg)),
         next_timer := Suc ?t, waiters := waiters w @ [(?p, ?t)]\<rparr>"
  have s: "stopServer cfg e serverId False w = (?w1, Pending ?t)"
    using stopServer_graceful [OF running wr] .
  have tm: "timers ?w1 ?t = Some (serverId, STOP_TIMEOUT cfg)" by simp
  have wt: "(?p, ?t) \<in> set (waiters ?w1)" by simp
  have sg0: "signals (children ?w1 ?p) = signals (children w ?p)"
    by (simp add: write_stdin_def)
  have rs1: "runningServers ?w1 serverId = Some inst"
    using running by (simp add: write_stdin_def)
  have own1: "owner (children ?w1 ?p) = serverId"
    using own by (simp add: write_stdin_def)
  have a: "\<forall>e1 code. let w2 = close_event e1 ?p code ?w1 in
           timers w2 ?t = None \<and> kill_timeout ?t w2 = w2 \<and> settled w2 ?t = Some GracefulStop \<and>
           signals (children w2 ?p) = signals (children w ?p)"
    using close_event_listener [OF wt] sg0
    by (simp add: Let_def kill_timeout_cleared close_event_frame del: fun_upd_apply)
  let ?w2 = "kill_timeout ?t ?w1"
  have k: "?w2 = kill ?p ''SIGKILL'' (?w1\<lparr>timers := (timers ?w1)(?t := None)\<rparr>)"
    using kill_timeout_fires [OF tm rs1] .
  have sg2: "signals (children ?w2 ?p) = signals (children w ?p) @ [''SIGKILL'']"
    unfolding k using sg0 by (simp add: kill_def)
  have wt2: "(?p, ?t) \<in> set (waiters ?w2)" unfolding k by (simp add: kill_def)
  have own2: "owner (children ?w2 ?p) = serverId" unfolding k using own1 by (simp add: kill_def)
  have b: "\<forall>e1 (e2 :: env) code. \<not> save_fails e2 \<longrightarrow>
              (let w3 = close_saved e2 ?p (close_event e1 ?p code ?w2) in
                 runningServers w3 serverId = None \<and> settled w3 ?t = Some GracefulStop)"
  proof (intro allI impI)
    fix e1 e2 :: env and code :: "int option" assume ns: "\<not> save_fails e2"
    let ?c = "close_event e1 ?p code ?w2"
    have st: "settled ?c ?t = Some GracefulStop" using close_event_listener(2) [OF wt2] .
    have ow: "owner (children ?c ?p) = serverId" using own2 by (simp add: close_event_frame)
    show "let w3 = close_saved e2 ?p ?c in
                 runningServers w3 serverId = None \<and> settled w3 ?t = Some GracefulStop"
      using ns st ow by (simp add: close_saved_def save_lastStopped_def Let_def split: option.split)
  qed
  show ?thesis
    using s tm a sg2 b by (simp only: Let_def) blast
qed

theorem stop_protocol_race_witness:
  "runningServers world_running ''s1'' = Some \<lparr>process = 0, startTime = 1000\<rparr> \<and>
   owner (children world_running 0) = ''s1'' \<and> stdin_write env_ok \<noteq> WriteThrows \<and>
   \<not> save_fails env_ok \<and>
   (\<exists>t w1. stopServer cfg3 env_ok ''s1'' False world_running = (w1, Pending t) \<and>
      timers w1 t = Some (''s1'', 30000) \<and>
      timers (close_event env_ok 0 (Some 0) w1) t = None \<and>
      settled (close_event env_ok 0 (Some 0) w1) t = Some GracefulStop \<and>
      signals (children (close_event env_ok 0 (Some 0) w1) 0) = [] \<and>
      signals (children (kill_timeout t w1) 0) = [''SIGKILL''] \<and>
      runningServers (close_saved env_ok 0 (close_event env_ok 0 None (kill_timeout t w1))) ''s1'' = None)"
proof -
  let ?inst = "\<lparr>process = 0, startTime = 1000\<rparr>"
  have r: "runningServers world_running ''s1'' = Some ?inst"
    by (simp add: world_running_def world_stopped_def)
  have o: "owner (children world_running (process ?inst)) = ''s1''"
    by (simp add: world_running_def world_stopped_def child1_def)
  have wr: "stdin_write env_ok \<noteq> WriteThrows" and sv: "\<not> save_fails env_ok"
    by (simp_all add: env_ok_def)
  have sg: "signals (children world_running 0) = []"
    by (simp add: world_running_def world_stopped_def child1_def)
  have st: "STOP_TIMEOUT cfg3 = 30000" by (simp add: STOP_TIMEOUT_def cfg3_def)
  from stop_protocol_race [OF r o wr, of cfg3] obtain t w1 where
    s: "stopServer cfg3 env_ok ''s1'' False world_running = (w1, Pending t)"
    and tm: "timers w1 t = Some (''s1'', STOP_TIMEOUT cfg3)"
    and a: "\<forall>e1 code. let w2 = close_event e1 (process ?inst) code w1 in
           timers w2 t = None \<and> kill_timeout t w2 = w2 \<and> settled w2 t = Some GracefulStop \<and>
           signals (children w2 (process ?inst)) = signals (children world_running (process ?inst))"
    and b: "let w2 = kill_timeout t w1 in
           signals (children w2 (process ?inst)) = signals (children world_running (process ?inst)) @ [''SIGKILL''] \<and>
           (\<forall>e1 (e2 :: env) code. \<not> save_fails e2 \<longrightarrow>
              (let w3 = close_saved e2 (process ?inst) (close_event e1 (process ?inst) code w2) in
                 runningServers w3 ''s1'' = None \<and> settled w3 t = Some GracefulStop))"
    by (elim exE conjE) (rule that, assumption+)
  from a [rule_format, of env_ok "Some 0"] have a':
    "timers (close_event env_ok 0 (Some 0) w1) t = None"
    "settled (close_event env_ok 0 (Some 0) w1) t = Some GracefulStop"
    "signals (children (close_event env_ok 0 (Some 0) w1) 0) = []"
    using sg by (simp_all add: Let_def)
  from b have b1: "signals (children (kill_timeout t w1) 0) = [''SIGKILL'']"
    using sg by (simp add: Let_def)
  from b have b0: "\<forall>e1 (e2 :: env) code. \<not> save_fails e2 \<longrightarrow>
       runningServers (close_saved e2 0 (close_event e1 0 code (kill_timeout t w1))) ''s1'' = None"
    by (simp add: Let_def)
  have b2: "runningServers (close_saved env_ok 0 (close_event env_ok 0 None (kill_timeout t w1))) ''s1'' = None"
    using b0 [rule_format, of env_ok env_ok None] sv by simp
  have "stopServer cfg3 env_ok ''s1'' False world_running = (w1, Pending t) \<and>
      timers w1 t = Some (''s1'', 30000) \<and>
      timers (close_event env_ok 0 (Some 0) w1) t = None \<and>
      settled (close_event env_ok 0 (Some 0) w1) t = Some GracefulStop \<and>
      signals (children (close_event env_ok 0 (Some 0) w1) 0) = [] \<and>
      signals (children (kill_timeout t w1) 0) = [''SIGKILL''] \<and>
      runningServers (close_saved env_ok 0 (close_event env_ok 0 None (kill_timeout t w1))) ''s1'' = None"
    using s tm st a' b1 b2 by simp
  then have "\<exists>t w1. stopServer cfg3 env_ok ''s1'' False world_running = (w1, Pending t) \<and>
      timers w1 t = Some (''s1'', 30000) \<and>
      timers (close_event env_ok 0 (Some 0) w1) t = None \<and>
      settled (close_event env_ok 0 (Some 0) w1) t = Some GracefulStop \<and>
      signals (children (close_event env_ok 0 (Some 0) w1) 0) = [] \<and>
      signals (children (kill_timeout t w1) 0) = [''SIGKILL''] \<and>
      runningServers (close_saved env_ok 0 (close_event env_ok 0 None (kill_timeout t w1))) ''s1'' = None"
    by (intro exI)
  with r o wr sv show ?thesis by simp
qed

section \<open>Properties of \<open>sendCommand\<close>\<close>

lemma sendCommand_not_running:
  "runningServers w serverId = None \<Longrightarrow> sendCommand cfg e serverId command w = (w, Inl NotRunning)"
  by (simp add: sendCommand_def)

text \<open>
  Claim C9, as the code has it. \<open>sendCommand\<close> makes no liveness check. It answers
  \<open>NotRunning\<close> exactly when the map has no handle for the server. With a handle in the
  map, whether or not the process has exited, it appends the command entry, leaves the
  map as it is, and reports the exception of the write as it is thrown, or success when
  the write does not throw.
\<close>

theorem sendCommand_result:
  "snd (sendCommand cfg e serverId command w) =
     (case runningServers w serverId of
        None \<Rightarrow> Inl NotRunning
      | Some inst \<Rightarrow> if stdin_write e = WriteThrows then Inl IOFailure else Inr CommandSent) \<and>
   (\<forall>inst. runningServers w serverId = Some inst \<longrightarrow>
      runningServers (fst (sendCommand cfg e serverId command w)) = runningServers w \<and>
      logs (children (fst (sendCommand cfg e serverId command w)) (process inst)) =
        command_log cfg (env_now e) command (logs (children w (process inst))))"
  by (simp add: sendCommand_def write_stdin_def Let_def split: option.split)

theorem sendCommand_result_witness:
  "runningServers world_exited ''s1'' = Some \<lparr>process = 0, startTime = 1000\<rparr> \<and>
   closed (children world_exited 0) \<and>
   snd (sendCommand cfg3 (env_ok\<lparr>stdin_write := WriteThrows\<rparr>) ''s1'' ''list'' world_exited) = Inl IOFailure \<and>
   runningServers (fst (sendCommand cfg3 (env_ok\<lparr>stdin_write := WriteThrows\<rparr>) ''s1'' ''list'' world_exited)) =
     runningServers world_exited"
proof -
  have r: "runningServers world_exited ''s1'' = Some \<lparr>process = 0, startTime = 1000\<rparr>"
    and c: "closed (children world_exited 0)"
    by (simp_all add: world_exited_def close_event_def world_running_def world_stopped_def Let_def)
  show ?thesis
    using sendCommand_result [of cfg3 "env_ok\<lparr>stdin_write := WriteThrows\<rparr>" "''s1''" "''list''" world_exited] r c
    by simp
qed

text \<open>
  The claim C9 as it is written fails: after the exit of child 0 and before the end of
  its \<open>close\<close> handler, the handle of \<open>s1\<close> is in the map; a command whose write throws
  ends with the error of the write, and one whose write fails later ends with success.
  Neither ends with \<open>NotRunning\<close>.
\<close>

theorem sendCommand_exited_counterexample:
  "runningServers world_exited ''s1'' \<noteq> None \<and> closed (children world_exited 0) \<and>
   snd (sendCommand cfg3 (env_ok\<lparr>stdin_write := WriteThrows\<rparr>) ''s1'' ''list'' world_exited) = Inl IOFailure \<and>
   snd (sendCommand cfg3 (env_ok\<lparr>stdin_write := WriteErrorLater\<rparr>) ''s1'' ''list'' world_exited) = Inr CommandSent \<and>
   Inl IOFailure \<noteq> (Inl NotRunning :: error + command_ok)"
  by (simp add: world_exited_def close_event_def sendCommand_def write_stdin_def world_running_def
      world_stopped_def env_ok_def Let_def)

section \<open>Properties of \<open>getServerLogs\<close>\<close>

lemma startsWith_iff: "startsWith s p \<longleftrightarrow> (\<exists>b. s = p @ b)"
  by (induction s p rule: startsWith.induct) auto

lemma includes_str_iff: "includes_str s p \<longleftrightarrow> (\<exists>a b. s = a @ p @ b)"
proof (induction s)
  case Nil
  then show ?case by auto
next
  case (Cons c cs)
  show ?case
  proof
    assume "includes_str (c # cs) p"
    then consider "startsWith (c # cs) p" | "includes_str cs p" by auto
    then show "\<exists>a b. c # cs = a @ p @ b"
    proof cases
      case 1
      then obtain b where "c # cs = p @ b" by (auto simp: startsWith_iff)
      then have "c # cs = [] @ p @ b" by simp
      then show ?thesis by blast
    next
      case 2
      then obtain a b where "cs = a @ p @ b" using Cons.IH by auto
      then have "c # cs = (c # a) @ p @ b" by simp
      then show ?thesis by blast
    qed
  next
    assume "\<exists>a b. c # cs = a @ p @ b"
    then obtain a b where ab: "c # cs = a @ p @ b" by blast
    show "includes_str (c # cs) p"
    proof (cases a)
      case Nil
      then have "startsWith (c # cs) p" using ab by (auto simp: startsWith_iff)
      then show ?thesis by simp
    next
      case (Cons x a')
      then have "cs = a' @ p @ b" using ab by simp
      then have "includes_str cs p" using Cons.IH by blast
      then show ?thesis by simp
    qed
  qed
qed

lemma slice_from_last:
  assumes "0 < l"
  shows "slice_from (- (min l (int (length xs)))) xs = takeLast (nat l) xs"
proof (cases xs)
  case Nil
  then show ?thesis by (simp add: slice_from_def takeLast_def)
next
  case (Cons y ys)
  then have "0 < int (length xs)" by simp
  with assms have neg: "- (min l (int (length xs))) < 0" by simp
  have "nat (max (int (length xs) + - (min l (int (length xs)))) 0) = length xs - nat l"
    using assms by (simp add: min_def max_def) arith
  with neg show ?thesis by (simp add: slice_from_def takeLast_def Let_def)
qed

lemma contains_ci_empty: "contains_ci m []"
  unfolding contains_ci_def toLowerCase_def by (metis append_Nil list.simps(8))

lemma includes_contains_ci: "includes_str (toLowerCase m) (toLowerCase s) = contains_ci m s"
  by (simp add: includes_str_iff contains_ci_def)

lemma apply_filters_spec:
  assumes "case opt_limit options of None \<Rightarrow> True | Some n \<Rightarrow> 0 \<le> n"
  shows "apply_filters options ls = getLogs_spec options ls"
proof -
  let ?ls1 = "case opt_type options of None \<Rightarrow> ls | Some t \<Rightarrow> if t = [] then ls else filter (\<lambda>l. type l = t) ls"
  have t: "?ls1 = filter (tag_matches options) ls"
    by (auto simp: tag_matches_def split: option.split intro: filter_cong)
  let ?ls2 = "case opt_search options of None \<Rightarrow> ?ls1
     | Some s \<Rightarrow> if s = [] then ?ls1
         else (let searchLower = toLowerCase s in filter (\<lambda>l. includes_str (toLowerCase (message l)) searchLower) ?ls1)"
  have s: "?ls2 = filter (search_matches options) ?ls1"
  proof (cases "opt_search options")
    case None
    then have "search_matches options = (\<lambda>l. True)"
      by (simp add: search_matches_def fun_eq_iff)
    with None show ?thesis by simp
  next
    case (Some s)
    then have "search_matches options = (\<lambda>l. contains_ci (message l) s)"
      by (simp add: search_matches_def fun_eq_iff)
    with Some show ?thesis
      by (simp add: includes_contains_ci contains_ci_empty Let_def)
  qed
  let ?limit = "case opt_limit options of None \<Rightarrow> 100 | Some n \<Rightarrow> if n = 0 then 100 else n"
  have l: "0 < ?limit" "nat ?limit = limit_of options"
    using assms by (auto simp: limit_of_def split: option.splits)
  have "apply_filters options ls = slice_from (- (min ?limit (int (length ?ls2)))) ?ls2"
    by (simp add: apply_filters_def Let_def)
  also have "\<dots> = takeLast (nat ?limit) ?ls2" using slice_from_last [OF l(1)] .
  finally show ?thesis using l(2) s t by (simp add: getLogs_spec_def)
qed

lemma takeLast_length: "length (takeLast n xs) \<le> n"
  by (simp add: takeLast_def)

lemma stderr_limit_one:
  assumes "type a = ''stdout''" "type b = ''stderr''" "ls = [a, b] \<or> ls = [b, a]"
  shows "apply_filters \<lparr>opt_type = Some ''stderr'', opt_search = None, opt_limit = Some 1\<rparr> ls = [b]"
  using assms by (auto simp: apply_filters_def slice_from_def Let_def)

text \<open>
  Claim C6, as the code has it. For a server with a handle and a limit that is absent,
  zero or positive, \<open>getServerLogs\<close> returns the log array filtered by the source tag,
  then by the search text without regard to case, then cut to the most recent entries
  in the order of their arrival: at most \<open>limit\<close> of them for a positive limit and at most
  100 for an absent limit or the limit 0. An absent or empty tag and an absent or empty
  search text filter nothing. On an array of one stdout and one stderr entry, the tag
  \<open>stderr\<close> with the limit 1 returns the stderr entry alone.
\<close>

theorem getServerLogs_live:
  assumes "runningServers w serverId = Some inst"
      and "case opt_limit options of None \<Rightarrow> True | Some n \<Rightarrow> 0 \<le> n"
  shows "getServerLogs e clk serverId options w =
           Inr (getLogs_spec options (logs (children w (process inst)))) \<and>
         length (getLogs_spec options (logs (children w (process inst)))) \<le> limit_of options \<and>
         (\<forall>a b. type a = ''stdout'' \<and> type b = ''stderr'' \<and>
            (logs (children w (process inst)) = [a, b] \<or> logs (children w (process inst)) = [b, a]) \<longrightarrow>
            getServerLogs e clk serverId
              \<lparr>opt_type = Some ''stderr'', opt_search = None, opt_limit = Some 1\<rparr> w = Inr [b])"
proof -
  let ?ls = "logs (children w (process inst))"
  have g: "getServerLogs e clk serverId options w = Inr (getLogs_spec options ?ls)"
    using assms(1) apply_filters_spec [OF assms(2)] by (simp add: getServerLogs_def)
  have n: "length (getLogs_spec options ?ls) \<le> limit_of options"
    by (simp add: getLogs_spec_def takeLast_length)
  have sc: "\<forall>a b. type a = ''stdout'' \<and> type b = ''stderr'' \<and> (?ls = [a, b] \<or> ?ls = [b, a]) \<longrightarrow>
            getServerLogs e clk serverId
              \<lparr>opt_type = Some ''stderr'', opt_search = None, opt_limit = Some 1\<rparr> w = Inr [b]"
  proof (intro allI impI)
    fix a b
    assume h: "type a = ''stdout'' \<and> type b = ''stderr'' \<and> (?ls = [a, b] \<or> ?ls = [b, a])"
    then have "apply_filters \<lparr>opt_type = Some ''stderr'', opt_search = None, opt_limit = Some 1\<rparr> ?ls = [b]"
      by (intro stderr_limit_one [of a b]) simp_all
    with assms(1) show "getServerLogs e clk serverId
              \<lparr>opt_type = Some ''stderr'', opt_search = None, opt_limit = Some 1\<rparr> w = Inr [b]"
      by (simp add: getServerLogs_def)
  qed
  from g n sc show ?thesis by (intro conjI)
qed

theorem getServerLogs_live_witness:
  "runningServers world_logging ''s1'' = Some \<lparr>process = 0, startTime = 1000\<rparr> \<and>
   getServerLogs env_ok clk0 ''s1'' \<lparr>opt_type = Some ''stderr'', opt_search = None, opt_limit = Some 1\<rparr> world_logging =
     Inr [err_entry] \<and>
   getLogs_spec \<lparr>opt_type = Some ''stderr'', opt_search = None, opt_limit = Some 1\<rparr> [out_entry, err_entry] = [err_entry]"
proof -
  let ?o = "\<lparr>opt_type = Some ''stderr'', opt_search = None, opt_limit = Some 1\<rparr>"
  have r: "runningServers world_logging ''s1'' = Some \<lparr>process = 0, startTime = 1000\<rparr>"
    by (simp add: world_logging_def world_running_def world_stopped_def)
  have l: "case opt_limit ?o of None \<Rightarrow> True | Some n \<Rightarrow> 0 \<le> n" by simp
  have ls: "logs (children world_logging 0) = [out_entry, err_entry]"
    by (simp add: world_logging_def world_running_def world_stopped_def)
  have ty: "type out_entry = ''stdout''" "type err_entry = ''stderr''"
    by (simp_all add: out_entry_def err_entry_def)
  note t = getServerLogs_live [OF r l, of env_ok clk0]
  have sc: "getServerLogs env_ok clk0 ''s1'' ?o world_logging = Inr [err_entry]"
    using t [THEN conjunct2, THEN conjunct2, rule_format, of out_entry err_entry] ty ls by simp
  have "getLogs_spec ?o [out_entry, err_entry] = [err_entry]"
    using t [THEN conjunct1] sc ls by simp
  with sc r show ?thesis by simp
qed

text \<open>
  The claim C6 as it is written fails for the limit 0, which \<open>options.limit || 100\<close>
  replaces by 100: both entries of the array come back where at most 0 are asked for.
\<close>

theorem getServerLogs_limit_zero_counterexample:
  "getServerLogs env_ok clk0 ''s1'' \<lparr>opt_type = None, opt_search = None, opt_limit = Some 0\<rparr> world_logging =
     Inr [out_entry, err_entry] \<and>
   \<not> int (length [out_entry, err_entry]) \<le> 0"
  by (simp add: getServerLogs_def apply_filters_def slice_from_def world_logging_def world_running_def
      world_stopped_def Let_def)

section \<open>Properties of the reader of the log file\<close>

lemma strip_prefix_iff: "strip_prefix p s = Some r \<longleftrightarrow> s = p @ r"
  by (induction p s rule: strip_prefix.induct) auto

lemma match_time_Some:
  "match_time s = Some (t, rest) \<Longrightarrow>
     s = t @ rest \<and> (\<exists>a b c d e f. t = [a, b, CHR '':'', c, d, CHR '':'', e, f] \<and>
        is_digit a \<and> is_digit b \<and> is_digit c \<and> is_digit d \<and> is_digit e \<and> is_digit f)"
  by (erule match_time.elims) (auto split: if_splits)

lemma digit_not_colon: "is_digit c \<Longrightarrow> c \<noteq> CHR '':''"
  by (auto simp: is_digit_def)

lemma Number_time:
  assumes "is_time t h m s"
  shows "map Number (split CHR '':'' t) = [h, m, s]"
proof -
  from assms obtain a b c d e f where t: "t = [a, b, CHR '':'', c, d, CHR '':'', e, f]"
    and dg: "is_digit a" "is_digit b" "is_digit c" "is_digit d" "is_digit e" "is_digit f"
    and v: "h = 10 * digit_value a + digit_value b" "m = 10 * digit_value c + digit_value d"
       "s = 10 * digit_value e + digit_value f"
    unfolding is_time_def by blast
  have nc: "a \<noteq> CHR '':''" "b \<noteq> CHR '':''" "c \<noteq> CHR '':''" "d \<noteq> CHR '':''"
    "e \<noteq> CHR '':''" "f \<noteq> CHR '':''"
    using dg by (simp_all add: digit_not_colon)
  have "split CHR '':'' t = [[a, b], [c, d], [e, f]]"
    unfolding t split_def using nc by simp
  then show ?thesis using v by (simp add: Number_def)
qed

lemma level_split:
  assumes "CHR '']'' \<notin> set level"
  shows "takeWhile (\<lambda>c. c \<noteq> CHR '']'') (level @ CHR '']'' # r) = level"
    and "dropWhile (\<lambda>c. c \<noteq> CHR '']'') (level @ CHR '']'' # r) = CHR '']'' # r"
  using assms by (induction level) auto

text \<open>\<open>match_at\<close> accepts exactly the texts that begin with the pattern.\<close>

lemma match_at_complete:
  assumes "matches_at s h m sec level"
  shows "\<exists>t body. match_at s = Some (t, level, body) \<and> is_time t h m sec"
proof -
  from assms obtain t rest where s: "s = ''['' @ t @ ''] ['' @ level @ '']: '' @ rest"
    and t: "is_time t h m sec" and l: "level \<noteq> []" "CHR '']'' \<notin> set level"
    and x: "rest \<noteq> []" "\<not> line_terminator (hd rest)"
    unfolding matches_at_def by blast
  from t obtain a b c d e f where tt: "t = [a, b, CHR '':'', c, d, CHR '':'', e, f]"
    and dg: "is_digit a" "is_digit b" "is_digit c" "is_digit d" "is_digit e" "is_digit f"
    unfolding is_time_def by blast
  let ?s3 = "level @ CHR '']'' # '': '' @ rest"
  have mt: "match_time (t @ ''] ['' @ ?s3) = Some (t, ''] ['' @ ?s3)"
    unfolding tt using dg by simp
  have tw: "takeWhile (\<lambda>c. \<not> line_terminator c) rest \<noteq> []"
    using x by (cases rest) auto
  have "match_at s = Some (t, level, takeWhile (\<lambda>c. \<not> line_terminator c) rest)"
    unfolding match_at_def s using mt l tw
    by (simp add: level_split Let_def)
  with t show ?thesis by blast
qed

lemma match_at_sound:
  assumes "match_at s = Some (t, level, body)"
  shows "\<exists>h m sec. is_time t h m sec \<and> matches_at s h m sec level"
proof -
  from assms obtain s1 s2 s3 s5 where
      a1: "strip_prefix ''['' s = Some s1" and a2: "match_time s1 = Some (t, s2)"
      and a3: "strip_prefix ''] ['' s2 = Some s3"
      and lv: "level = takeWhile (\<lambda>c. c \<noteq> CHR '']'') s3" "level \<noteq> []"
      and a4: "strip_prefix '']: '' (dropWhile (\<lambda>c. c \<noteq> CHR '']'') s3) = Some s5"
      and tx: "takeWhile (\<lambda>c. \<not> line_terminator c) s5 \<noteq> []"
    unfolding match_at_def
    by (auto simp: Let_def split: option.splits if_splits)
  from a2 obtain a b c d e f where s1: "s1 = t @ s2"
      and tt: "t = [a, b, CHR '':'', c, d, CHR '':'', e, f]"
      and dg: "is_digit a" "is_digit b" "is_digit c" "is_digit d" "is_digit e" "is_digit f"
    using match_time_Some by blast
  let ?h = "10 * digit_value a + digit_value b"
  let ?m = "10 * digit_value c + digit_value d"
  let ?sec = "10 * digit_value e + digit_value f"
  have it: "is_time t ?h ?m ?sec" unfolding is_time_def using tt dg by blast
  have s3: "s3 = level @ '']: '' @ s5"
    using a4 lv(1) takeWhile_dropWhile_id [of "\<lambda>c. c \<noteq> CHR '']''" s3]
    by (simp add: strip_prefix_iff)
  have nl: "CHR '']'' \<notin> set level"
    unfolding lv(1) by (auto dest: set_takeWhileD)
  have s5: "s5 \<noteq> []" "\<not> line_terminator (hd s5)"
    using tx by (cases s5; auto split: if_splits)+
  have "s = ''['' @ t @ ''] ['' @ level @ '']: '' @ s5"
    using a1 a3 s1 s3 by (simp add: strip_prefix_iff)
  then have "matches_at s ?h ?m ?sec level"
    unfolding matches_at_def using it lv(2) nl s5 by blast
  with it show ?thesis by blast
qed

text \<open>\<open>regex_match\<close> returns the match at the leftmost place, and \<open>None\<close> when there is none.\<close>

lemma regex_match_None:
  "regex_match line = None \<Longrightarrow> line = pre @ s \<Longrightarrow> match_at s = None"
proof (induction line arbitrary: pre)
  case Nil
  then show ?case by simp
next
  case (Cons c cs)
  from Cons.prems(1) have h: "match_at (c # cs) = None" and r: "regex_match cs = None"
    by (auto split: option.splits)
  show ?case
  proof (cases pre)
    case Nil
    then show ?thesis using Cons.prems(2) h by simp
  next
    case (Cons x pre')
    then have "cs = pre' @ s" using Cons.prems(2) by simp
    then show ?thesis using Cons.IH [OF r] by blast
  qed
qed

lemma match_at_Nil: "match_at [] = None"
  by (simp add: match_at_def)

lemma regex_match_Some:
  "regex_match line = Some r \<Longrightarrow>
     \<exists>pre s. line = pre @ s \<and> match_at s = Some r \<and>
       (\<forall>pre' s'. line = pre' @ s' \<and> length pre' < length pre \<longrightarrow> match_at s' = None)"
proof (induction line)
  case Nil
  then show ?case by (simp add: match_at_Nil)
next
  case (Cons c cs)
  show ?case
  proof (cases "match_at (c # cs)")
    case (Some m)
    then have "match_at (c # cs) = Some r" using Cons.prems by simp
    then have "c # cs = [] @ (c # cs) \<and> match_at (c # cs) = Some r \<and>
       (\<forall>pre' s'. c # cs = pre' @ s' \<and> length pre' < length ([] :: string) \<longrightarrow> match_at s' = None)"
      by simp
    then show ?thesis by (intro exI)
  next
    case None
    then have "regex_match cs = Some r" using Cons.prems by simp
    then obtain pre s where ps: "cs = pre @ s" "match_at s = Some r"
        and least: "\<And>pre' s'. cs = pre' @ s' \<Longrightarrow> length pre' < length pre \<Longrightarrow> match_at s' = None"
      using Cons.IH by blast
    have "match_at s' = None" if a: "c # cs = pre' @ s'" "length pre' < length (c # pre)" for pre' s'
    proof (cases pre')
      case Nil
      then show ?thesis using a None by simp
    next
      case (Cons x p')
      then have "cs = p' @ s'" "length p' < length pre" using a by simp_all
      then show ?thesis by (rule least)
    qed
    then have "c # cs = (c # pre) @ s \<and> match_at s = Some r \<and>
       (\<forall>pre' s'. c # cs = pre' @ s' \<and> length pre' < length (c # pre) \<longrightarrow> match_at s' = None)"
      using ps by simp
    then show ?thesis by (intro exI)
  qed
qed

lemma regex_None_no_match:
  assumes "regex_match line = None"
  shows "no_match line"
  unfolding no_match_def
proof (intro allI impI)
  fix pre s h m sec level assume ps: "line = pre @ s"
  show "\<not> matches_at s h m sec level"
  proof
    assume "matches_at s h m sec level"
    from match_at_complete [OF this] obtain t body where "match_at s = Some (t, level, body)" by blast
    with regex_match_None [OF assms ps] show False by simp
  qed
qed

lemma regex_Some_first_match:
  assumes "regex_match line = Some (t, level, body)"
  shows "\<exists>h m sec. is_time t h m sec \<and> first_match line h m sec level"
proof -
  from regex_match_Some [OF assms] obtain pre s where ps: "line = pre @ s"
    and m: "match_at s = Some (t, level, body)"
    and least: "\<forall>pre' s'. line = pre' @ s' \<and> length pre' < length pre \<longrightarrow> match_at s' = None"
    by (elim exE conjE) (rule that, assumption+)
  from match_at_sound [OF m] obtain h m' sec where it: "is_time t h m' sec"
    and mm: "matches_at s h m' sec level" by blast
  have "\<not> matches_at s' h' m'' sec' level'" if "line = pre' @ s' \<and> length pre' < length pre"
    for pre' s' h' m'' sec' level'
  proof
    assume "matches_at s' h' m'' sec' level'"
    from match_at_complete [OF this] obtain t' body' where "match_at s' = Some (t', level', body')" by blast
    with least [rule_format, OF that] show False by simp
  qed
  then have "\<forall>pre' s' h' m'' sec' level'.
           line = pre' @ s' \<and> length pre' < length pre \<longrightarrow> \<not> matches_at s' h' m'' sec' level'"
    by (intro allI impI)
  with ps mm have "line = pre @ s \<and> matches_at s h m' sec level \<and>
        (\<forall>pre' s' h' m'' sec' level'.
           line = pre' @ s' \<and> length pre' < length pre \<longrightarrow> \<not> matches_at s' h' m'' sec' level')"
    by (intro conjI)
  then have "first_match line h m' sec level" unfolding first_match_def by (intro exI)
  with it show ?thesis by (intro exI conjI)
qed

lemma first_match_regex:
  assumes "first_match line h m sec level"
  shows "\<exists>t body. regex_match line = Some (t, level, body) \<and> is_time t h m sec"
proof -
  from assms have "\<exists>pre s. line = pre @ s \<and> matches_at s h m sec level \<and>
        (\<forall>pre' s' h' m' sec' level'.
           line = pre' @ s' \<and> length pre' < length pre \<longrightarrow> \<not> matches_at s' h' m' sec' level')"
    unfolding first_match_def .
  then obtain pre s where ps: "line = pre @ s" and ma: "matches_at s h m sec level"
    and least0: "\<forall>pre' s' h' m' sec' level'.
           line = pre' @ s' \<and> length pre' < length pre \<longrightarrow> \<not> matches_at s' h' m' sec' level'"
    by (elim exE conjE) (rule that, assumption+)
  have least: "\<not> matches_at s' h' m' sec' level'" if "line = pre' @ s'" "length pre' < length pre"
    for pre' s' h' m' sec' level'
    using least0 [rule_format, of pre' s'] that by (simp only: simp_thms)
  from match_at_complete [OF ma] obtain t body where
    mt: "match_at s = Some (t, level, body)" and it: "is_time t h m sec" by blast
  have "regex_match line = Some (t, level, body)"
  proof (cases "regex_match line")
    case None
    then have "match_at s = None" using ps by (rule regex_match_None)
    with mt show ?thesis by simp
  next
    case (Some r)
    from regex_match_Some [OF Some] obtain pre2 s2 where ps2: "line = pre2 @ s2"
      and m2: "match_at s2 = Some r"
      and least2: "\<forall>pre' s'. line = pre' @ s' \<and> length pre' < length pre2 \<longrightarrow> match_at s' = None"
      by (elim exE conjE) (rule that, assumption+)
    obtain t2 l2 b2 where r: "r = (t2, l2, b2)" by (cases r) auto
    have "\<not> length pre2 < length pre"
    proof
      assume lt: "length pre2 < length pre"
      from match_at_sound [OF m2 [unfolded r]] obtain h' m' sec' where "matches_at s2 h' m' sec' l2" by blast
      with least [OF ps2 lt] show False by (rule notE)
    qed
    moreover have "\<not> length pre < length pre2"
    proof
      assume "length pre < length pre2"
      with ps have "match_at s = None" using least2 [rule_format, of pre s] by simp
      with mt show False by simp
    qed
    ultimately have len: "length pre = length pre2" by simp
    have "pre @ s = pre2 @ s2" using ps ps2 by (rule subst)
    with len have "s = s2" by simp
    then have "Some r = Some (t, level, body)" using mt m2 by (simp only:)
    with Some show ?thesis by (simp only:)
  qed
  with it show ?thesis by (intro exI conjI)
qed

text \<open>
  Claim C5. On a line whose leftmost match of the pattern has the time \<open>h:m:sec\<close> and
  the level \<open>level\<close>, the entry has the instant of the current calendar day at that time
  of day, the whole line as message, and the tag \<open>stderr\<close> exactly when the level
  contains \<open>ERROR\<close>, else \<open>stdout\<close>. On a line without a match, the entry has the time
  of the reader's clock, the whole line as message and the tag \<open>stdout\<close>. Every line is of
  one of the two kinds. The line \<open>[12:34:56] [Server thread/ERROR]: Oops\<close> gives the tag
  \<open>stderr\<close>, itself as message and the time of day 12:34:56. The reader makes one entry for
  each line of the file that is not blank, in the order of the lines.
\<close>

theorem parse_log_line_entry:
  "(first_match line h m sec level \<longrightarrow>
      parse_log_line clk line =
        \<lparr>timestamp = today_at clk h m sec, message = line,
         type = (if (\<exists>a b. level = a @ ''ERROR'' @ b) then ''stderr'' else ''stdout'')\<rparr>) \<and>
   (no_match line \<longrightarrow>
      parse_log_line clk line = \<lparr>timestamp = now_ms clk, message = line, type = ''stdout''\<rparr>) \<and>
   (no_match line \<or> (\<exists>h m sec level. first_match line h m sec level)) \<and>
   parse_log_line clk ''[12:34:56] [Server thread/ERROR]: Oops'' =
     \<lparr>timestamp = today_at clk 12 34 56, message = ''[12:34:56] [Server thread/ERROR]: Oops'',
      type = ''stderr''\<rparr> \<and>
   parse_log_file clk content =
     map (parse_log_line clk) (filter (\<lambda>l. trim l \<noteq> []) (split (CHR 0x0A) content))"
proof -
  have a: "parse_log_line clk line =
        \<lparr>timestamp = today_at clk h m sec, message = line,
         type = (if (\<exists>a b. level = a @ ''ERROR'' @ b) then ''stderr'' else ''stdout'')\<rparr>"
    if fm: "first_match line h m sec level"
  proof -
    from first_match_regex [OF fm] obtain t body where
      r: "regex_match line = Some (t, level, body)" and it: "is_time t h m sec" by blast
    show ?thesis
      using r Number_time [OF it] by (simp add: parse_log_line_def includes_str_iff)
  qed
  have b: "parse_log_line clk line = \<lparr>timestamp = now_ms clk, message = line, type = ''stdout''\<rparr>"
    if nm: "no_match line"
  proof (cases "regex_match line")
    case None
    then show ?thesis by (simp add: parse_log_line_def)
  next
    case (Some r)
    obtain t l bd where r: "r = (t, l, bd)" by (cases r) auto
    from regex_Some_first_match [OF Some [unfolded r]] obtain h' m' sec'
      where "first_match line h' m' sec' l" by blast
    then obtain pre s where "line = pre @ s" "matches_at s h' m' sec' l"
      unfolding first_match_def by (elim exE conjE) (rule that, assumption+)
    with nm show ?thesis unfolding no_match_def by blast
  qed
  have c: "no_match line \<or> (\<exists>h m sec level. first_match line h m sec level)"
  proof (cases "regex_match line")
    case None
    then show ?thesis by (simp add: regex_None_no_match)
  next
    case (Some r)
    obtain t l bd where r: "r = (t, l, bd)" by (cases r) auto
    from regex_Some_first_match [OF Some [unfolded r]] show ?thesis by blast
  qed
  have d: "parse_log_line clk ''[12:34:56] [Server thread/ERROR]: Oops'' =
     \<lparr>timestamp = today_at clk 12 34 56, message = ''[12:34:56] [Server thread/ERROR]: Oops'',
      type = ''stderr''\<rparr>"
    by (simp add: parse_log_line_def match_at_def is_digit_def line_terminator_def Number_def
        split_def digit_value_def)
  have e: "parse_log_file clk content =
     map (parse_log_line clk) (filter (\<lambda>l. trim l \<noteq> []) (split (CHR 0x0A) content))"
    by (simp add: parse_log_file_def)
  from a b c d e show ?thesis by (intro conjI impI)
qed

theorem parse_log_line_entry_witness:
  "first_match ''[12:34:56] [Server thread/ERROR]: Oops'' 12 34 56 ''Server thread/ERROR'' \<and>
   parse_log_line clk0 ''[12:34:56] [Server thread/ERROR]: Oops'' =
     \<lparr>timestamp = 45296000, message = ''[12:34:56] [Server thread/ERROR]: Oops'', type = ''stderr''\<rparr> \<and>
   no_match ''Stopping server'' \<and>
   parse_log_line clk0 ''Stopping server'' =
     \<lparr>timestamp = 777, message = ''Stopping server'', type = ''stdout''\<rparr>"
proof -
  let ?l = "''[12:34:56] [Server thread/ERROR]: Oops''"
  have it: "is_time ''12:34:56'' 12 34 56"
    unfolding is_time_def by (simp add: is_digit_def digit_value_def)
  have "regex_match ?l = Some (''12:34:56'', ''Server thread/ERROR'', ''Oops'')"
    by (simp add: match_at_def is_digit_def line_terminator_def)
  from regex_Some_first_match [OF this] obtain h m sec where
    it': "is_time ''12:34:56'' h m sec" and f: "first_match ?l h m sec ''Server thread/ERROR''" by blast
  have hms: "h = 12 \<and> m = 34 \<and> sec = 56"
    using it it' by (auto simp: is_time_def)
  with f have fm: "first_match ?l 12 34 56 ''Server thread/ERROR''" by simp
  have "regex_match ''Stopping server'' = None"
    by (simp add: match_at_def)
  then have nm: "no_match ''Stopping server''" by (rule regex_None_no_match)
  have er: "\<exists>a b. ''Server thread/ERROR'' = a @ ''ERROR'' @ b"
    using includes_str_iff [of "''Server thread/ERROR''" "''ERROR''"] by simp
  have p1: "parse_log_line clk0 ?l = \<lparr>timestamp = 45296000, message = ?l, type = ''stderr''\<rparr>"
    using parse_log_line_entry [of ?l 12 34 56 "''Server thread/ERROR''" clk0, THEN conjunct1, rule_format, OF fm] er
    by (simp add: clk0_def)
  have p2: "parse_log_line clk0 ''Stopping server'' =
     \<lparr>timestamp = 777, message = ''Stopping server'', type = ''stdout''\<rparr>"
    using parse_log_line_entry [of "''Stopping server''" 0 0 0 "[]" clk0, THEN conjunct2, THEN conjunct1, rule_format, OF nm]
    by (simp add: clk0_def)
  from fm p1 nm p2 show ?thesis by (intro conjI)
qed

end
